theory Spec2Isabelle
  imports Complex_Main "HOL-Library.Word"
begin

unbundle bit_operations_syntax

chapter \<open>The program\<close>

section \<open>C types\<close>

text \<open>
  The program is C for Linux. Its integer types are modelled at their widths:
  \<open>uint8_t\<close>, \<open>int16_t\<close>, \<open>int\<close> and \<open>uint32_t\<close> (32 bits) and \<open>size_t\<close> (64 bits, the
  LP64 data model of 64-bit Linux). A word carries no sign: signed values are read
  with \<open>sint\<close>, compared with \<open><s\<close> and \<open>\<le>s\<close>, and widened with \<open>scast\<close> (sign
  extension); unsigned ones use \<open>unat\<close>/\<open>uint\<close>, \<open><\<close> and \<open>ucast\<close>. A conversion to a
  narrower type is \<open>ucast\<close> (truncation). Overflow of a signed addition or subtraction
  is undefined in C; the model takes the two's complement wrap-around of the machine
  instruction, and the theorems about sums and indices state the bounds under which no
  overflow occurs, so that they do not depend on that choice.
\<close>

type_synonym uint8_t = "8 word"
type_synonym int16_t = "16 word"
type_synonym c_int = "32 word"
type_synonym uint32_t = "32 word"
type_synonym size_t = "64 word"

section \<open>spi.h, spi.c: the SPI bus access layer\<close>

text \<open>\<open>struct spi_settings\<close>.\<close>

record spi_settings =
  mode :: uint8_t
  is_lsb_first :: uint8_t
  bits_per_word :: uint8_t
  max_speed_hz :: uint32_t

text \<open>
  The layer talks to the kernel through \<open>open\<close>, \<open>close\<close> and \<open>ioctl\<close> with the eight
  spidev requests below. The kernel is not part of the program: every function takes a
  kernel \<open>K\<close>, three functions over a kernel state \<open>'k\<close> of any type. \<open>k_ioctl\<close> receives
  the content of the cell its third argument points to and returns the \<open>int\<close> result, the
  content of the cell afterwards and the new kernel state; a byte-sized cell is passed in
  the low 8 bits.
\<close>

datatype request =
    SPI_IOC_RD_MODE | SPI_IOC_WR_MODE
  | SPI_IOC_RD_LSB_FIRST | SPI_IOC_WR_LSB_FIRST
  | SPI_IOC_RD_BITS_PER_WORD | SPI_IOC_WR_BITS_PER_WORD
  | SPI_IOC_RD_MAX_SPEED_HZ | SPI_IOC_WR_MAX_SPEED_HZ

record 'k kernel =
  k_open :: "'k \<Rightarrow> string \<Rightarrow> c_int \<times> 'k"
  k_close :: "'k \<Rightarrow> c_int \<Rightarrow> 'k"
  k_ioctl :: "'k \<Rightarrow> c_int \<Rightarrow> request \<Rightarrow> uint32_t \<Rightarrow> c_int \<times> uint32_t \<times> 'k"

text \<open>
  The state of the running program: the kernel state, the system calls issued so far
  with their results (oldest first), and the file-scope variable \<open>spi_settings_orig\<close>.
  An \<open>Ioctl\<close> entry records the descriptor, the request, the cell before and after the
  call, and the result. Every call to the kernel goes through \<open>sys_open\<close>, \<open>sys_close\<close>
  or \<open>sys_ioctl\<close>, which append to \<open>calls\<close>. The \<open>printf\<close> calls of the layer write
  diagnostics only and are left out.
\<close>

datatype syscall =
    Open string c_int
  | Close c_int
  | Ioctl c_int request uint32_t uint32_t c_int

record 'k world =
  kern :: 'k
  calls :: "syscall list"
  spi_settings_orig :: spi_settings

definition sys_open :: "'k kernel \<Rightarrow> string \<Rightarrow> 'k world \<Rightarrow> c_int \<times> 'k world" where
  "sys_open K name w =
     (case k_open K (kern w) name of
        (fd, k') \<Rightarrow> (fd, w\<lparr>kern := k', calls := calls w @ [Open name fd]\<rparr>))"

definition sys_close :: "'k kernel \<Rightarrow> c_int \<Rightarrow> 'k world \<Rightarrow> 'k world" where
  "sys_close K fd w = w\<lparr>kern := k_close K (kern w) fd, calls := calls w @ [Close fd]\<rparr>"

definition sys_ioctl ::
  "'k kernel \<Rightarrow> c_int \<Rightarrow> request \<Rightarrow> uint32_t \<Rightarrow> 'k world \<Rightarrow> (c_int \<times> uint32_t) \<times> 'k world" where
  "sys_ioctl K fd rq arg w =
     (case k_ioctl K (kern w) fd rq arg of
        (ret, arg', k') \<Rightarrow>
          ((ret, arg'), w\<lparr>kern := k', calls := calls w @ [Ioctl fd rq arg arg' ret]\<rparr>))"

text \<open>
  The static helpers. A setter passes the address of its by-value parameter, so what the
  kernel leaves in that cell is dropped; a getter stores through the caller's pointer.
\<close>

definition get_spi_mode ::
  "'k kernel \<Rightarrow> c_int \<Rightarrow> uint8_t \<Rightarrow> 'k world \<Rightarrow> (c_int \<times> uint8_t) \<times> 'k world" where
  "get_spi_mode K fd mode_v w =
     (case sys_ioctl K fd SPI_IOC_RD_MODE (ucast mode_v) w of
        ((ret, a), w') \<Rightarrow> ((ret, ucast a), w'))"

definition set_spi_mode :: "'k kernel \<Rightarrow> c_int \<Rightarrow> uint8_t \<Rightarrow> 'k world \<Rightarrow> c_int \<times> 'k world" where
  "set_spi_mode K fd mode_v w =
     (case sys_ioctl K fd SPI_IOC_WR_MODE (ucast mode_v) w of ((ret, a), w') \<Rightarrow> (ret, w'))"

definition get_spi_is_lsb_first ::
  "'k kernel \<Rightarrow> c_int \<Rightarrow> uint8_t \<Rightarrow> 'k world \<Rightarrow> (c_int \<times> uint8_t) \<times> 'k world" where
  "get_spi_is_lsb_first K fd lsb w =
     (case sys_ioctl K fd SPI_IOC_RD_LSB_FIRST (ucast lsb) w of
        ((ret, a), w') \<Rightarrow> ((ret, ucast a), w'))"

definition set_spi_is_lsb_first ::
  "'k kernel \<Rightarrow> c_int \<Rightarrow> uint8_t \<Rightarrow> 'k world \<Rightarrow> c_int \<times> 'k world" where
  "set_spi_is_lsb_first K fd lsb w =
     (case sys_ioctl K fd SPI_IOC_WR_LSB_FIRST (ucast lsb) w of ((ret, a), w') \<Rightarrow> (ret, w'))"

definition get_spi_bits_per_word ::
  "'k kernel \<Rightarrow> c_int \<Rightarrow> uint8_t \<Rightarrow> 'k world \<Rightarrow> (c_int \<times> uint8_t) \<times> 'k world" where
  "get_spi_bits_per_word K fd bits w =
     (case sys_ioctl K fd SPI_IOC_RD_BITS_PER_WORD (ucast bits) w of
        ((ret, a), w') \<Rightarrow> ((ret, ucast a), w'))"

definition set_spi_bits_per_word ::
  "'k kernel \<Rightarrow> c_int \<Rightarrow> uint8_t \<Rightarrow> 'k world \<Rightarrow> c_int \<times> 'k world" where
  "set_spi_bits_per_word K fd bits w =
     (case sys_ioctl K fd SPI_IOC_WR_BITS_PER_WORD (ucast bits) w of ((ret, a), w') \<Rightarrow> (ret, w'))"

definition get_spi_max_speed_hz ::
  "'k kernel \<Rightarrow> c_int \<Rightarrow> uint32_t \<Rightarrow> 'k world \<Rightarrow> (c_int \<times> uint32_t) \<times> 'k world" where
  "get_spi_max_speed_hz K fd speed w = sys_ioctl K fd SPI_IOC_RD_MAX_SPEED_HZ speed w"

definition set_spi_max_speed_hz ::
  "'k kernel \<Rightarrow> c_int \<Rightarrow> uint32_t \<Rightarrow> 'k world \<Rightarrow> c_int \<times> 'k world" where
  "set_spi_max_speed_hz K fd speed w =
     (case sys_ioctl K fd SPI_IOC_WR_MAX_SPEED_HZ speed w of ((ret, a), w') \<Rightarrow> (ret, w'))"

text \<open>
  \<open>spi_read_settings(fd, settings)\<close> fills \<open>*settings\<close> field by field: the model takes
  the structure before the call and returns the result together with the structure
  afterwards (partly filled when a query fails).
\<close>

definition spi_read_settings ::
  "'k kernel \<Rightarrow> c_int \<Rightarrow> spi_settings \<Rightarrow> 'k world \<Rightarrow> (c_int \<times> spi_settings) \<times> 'k world" where
  "spi_read_settings K fd settings w =
     (case get_spi_mode K fd (mode settings) w of
        ((ret, m), w) \<Rightarrow>
          let settings = settings\<lparr>mode := m\<rparr> in
          if 0 \<noteq> ret then ((ret, settings), w)
          else
     (case get_spi_is_lsb_first K fd (is_lsb_first settings) w of
        ((ret, l), w) \<Rightarrow>
          let settings = settings\<lparr>is_lsb_first := l\<rparr> in
          if 0 \<noteq> ret then ((ret, settings), w)
          else
     (case get_spi_bits_per_word K fd (bits_per_word settings) w of
        ((ret, b), w) \<Rightarrow>
          let settings = settings\<lparr>bits_per_word := b\<rparr> in
          if 0 \<noteq> ret then ((ret, settings), w)
          else
     (case get_spi_max_speed_hz K fd (max_speed_hz settings) w of
        ((ret, h), w) \<Rightarrow>
          let settings = settings\<lparr>max_speed_hz := h\<rparr> in
          if 0 \<noteq> ret then ((ret, settings), w)
          else ((0, settings), w)))))"

definition spi_write_settings ::
  "'k kernel \<Rightarrow> c_int \<Rightarrow> spi_settings \<Rightarrow> 'k world \<Rightarrow> c_int \<times> 'k world" where
  "spi_write_settings K fd settings w =
     (case set_spi_mode K fd (mode settings) w of
        (ret, w) \<Rightarrow>
          if 0 \<noteq> ret then (ret, w)
          else
     (case set_spi_is_lsb_first K fd (is_lsb_first settings) w of
        (ret, w) \<Rightarrow>
          if 0 \<noteq> ret then (ret, w)
          else
     (case set_spi_bits_per_word K fd (bits_per_word settings) w of
        (ret, w) \<Rightarrow>
          if 0 \<noteq> ret then (ret, w)
          else
     (case set_spi_max_speed_hz K fd (max_speed_hz settings) w of
        (ret, w) \<Rightarrow>
          if 0 \<noteq> ret then (ret, w)
          else (0, w)))))"

text \<open>
  \<open>spi_init\<close> passes \<open>&spi_settings_orig\<close> to \<open>spi_read_settings\<close>: the structure
  returned is stored back into the variable, also when the read fails.
\<close>

definition spi_init ::
  "'k kernel \<Rightarrow> string \<Rightarrow> spi_settings \<Rightarrow> 'k world \<Rightarrow> c_int \<times> 'k world" where
  "spi_init K device_name settings w =
     (case sys_open K device_name w of
        (fd, w) \<Rightarrow>
          if fd <s 0 then (fd, w)
          else
     (case spi_read_settings K fd (spi_settings_orig w) w of
        ((ret, orig), w) \<Rightarrow>
          let w = w\<lparr>spi_settings_orig := orig\<rparr> in
          if 0 \<noteq> ret then (- 1, sys_close K fd w)
          else
     (case spi_write_settings K fd settings w of
        (ret, w) \<Rightarrow>
          if 0 \<noteq> ret then (- 1, sys_close K fd w)
          else (fd, w))))"

section \<open>main.c: the acquisition and filtering application\<close>

text \<open>The compile-time constants; \<open>SPI_MODE_3\<close> of \<open>linux/spi/spidev.h\<close> is 3.\<close>

definition device :: string where
  "device = ''/dev/spidev0.0''"

definition spi_settings_desired :: spi_settings where
  "spi_settings_desired = \<lparr>mode = 3, is_lsb_first = 0, bits_per_word = 8, max_speed_hz = 25000\<rparr>"

subsection \<open>Decoding one MCP3301 reading\<close>

text \<open>
  \<open>read_mcp3301_single(fd)\<close> calls \<open>spi_read_two_bytes(fd, raw_data)\<close> on an
  uninitialised two-byte array. The model takes the outcome of that call as its
  argument: the \<open>int\<close> it returned and the two bytes \<open>raw_data\<close> holds afterwards
  (whatever they are when fewer than two bytes were read). The \<open>printf\<close> of the failure
  branch has no effect on the result and is left out.

  The statements \<open>data |= ...\<close> and \<open>data -= 4096\<close> work on \<open>int\<close> after the integer
  promotions (\<open>scast\<close> of the \<open>int16_t\<close>, \<open>ucast\<close> of the \<open>uint8_t\<close>) and store the result
  back into the \<open>int16_t\<close> (\<open>ucast\<close>); \<open>return 0x8001\<close> converts the \<open>int\<close> 32769 to
  \<open>int16_t\<close>.
\<close>

definition read_mcp3301_single :: "c_int \<times> uint8_t \<times> uint8_t \<Rightarrow> int16_t" where
  "read_mcp3301_single rd =
     (case rd of (n, raw_data0, raw_data1) \<Rightarrow>
        if 2 \<noteq> n then ucast (0x8001 :: c_int)
        else
          let data = (0 :: int16_t);
              data = (ucast ((scast data :: c_int)
                        OR push_bit 8 ((ucast raw_data0 :: c_int) AND 0x0F)) :: int16_t);
              data = (ucast ((scast data :: c_int) OR (ucast raw_data1 :: c_int)) :: int16_t);
              sign = (if (ucast raw_data0 :: c_int) AND 0x10 \<noteq> 0 then (1 :: 8 word) else 0)
          in if sign \<noteq> 0 then ucast ((scast data :: c_int) - 4096) else data)"

subsection \<open>The filter buffer\<close>

text \<open>
  \<open>struct filter_buffer\<close>: \<open>data\<close> is the allocated array, as the list of its slots.
  An access outside the array, and a remainder by zero, are undefined in C: the model
  returns a \<open>fault\<close> there.
\<close>

datatype fault = OutOfBounds | DivideByZero

record filter_buffer =
  data :: "c_int list"
  data_len :: size_t
  location :: c_int

text \<open>
  \<open>fb_new(len)\<close> allocates \<open>sizeof(int) * len\<close> bytes, a product in \<open>size_t\<close>, and
  zero-fills them: the array has that many bytes divided by 4 slots. A failing \<open>malloc\<close>
  is not modelled.
\<close>

definition fb_new :: "size_t \<Rightarrow> filter_buffer" where
  "fb_new len = \<lparr>data = replicate (unat (4 * len) div 4) 0, data_len = len, location = 0\<rparr>"

text \<open>
  \<open>fb->location = (fb->location + 1) % fb->data_len\<close>: the sum is an \<open>int\<close>, converted to
  \<open>size_t\<close> for the remainder, and the remainder is converted back to \<open>int\<close>.
\<close>

definition fb_incr_loc :: "filter_buffer \<Rightarrow> fault + filter_buffer" where
  "fb_incr_loc fb =
     (if data_len fb = 0 then Inl DivideByZero
      else Inr (fb\<lparr>location := ucast ((scast (location fb + 1) :: size_t) mod data_len fb)\<rparr>))"

definition fb_push :: "filter_buffer \<Rightarrow> c_int \<Rightarrow> fault + filter_buffer" where
  "fb_push fb val =
     (if 0 \<le>s location fb \<and> nat (sint (location fb)) < length (data fb)
      then fb_incr_loc (fb\<lparr>data := (data fb)[nat (sint (location fb)) := val]\<rparr>)
      else Inl OutOfBounds)"

text \<open>
  A double is modelled by the real number it rounds: \<open>Double r\<close> is the double nearest
  to \<open>r\<close>. In \<open>((double) sum) / (fb->data_len - 2)\<close> the \<open>int\<close> converts exactly, the
  \<open>size_t\<close> difference converts exactly when it is below \<open>2 ^ 53\<close>, and the division
  rounds its exact quotient once, so the result is determined by the two operands.
  A zero divisor gives an infinity or a NaN.
\<close>

datatype c_double = Double real | PosInf | NegInf | NaN

definition double_div :: "int \<Rightarrow> nat \<Rightarrow> c_double" where
  "double_div n d =
     (if d \<noteq> 0 then Double (real_of_int n / real d)
      else if 0 < n then PosInf else if n < 0 then NegInf else NaN)"

text \<open>
  The loop of \<open>filter_avg\<close>, from the index \<open>i\<close> with the current \<open>max\<close>, \<open>min\<close> and
  \<open>sum\<close>. The test \<open>i < fb->data_len\<close> compares in \<open>size_t\<close>. The index cannot run
  forever: it only steps while it is non-negative.
\<close>

function filter_avg_loop ::
  "filter_buffer \<Rightarrow> c_int \<Rightarrow> c_int \<times> c_int \<times> c_int \<Rightarrow> fault + (c_int \<times> c_int \<times> c_int)" where
  "filter_avg_loop fb i (max_v, min_v, sum_v) =
     (if (scast i :: size_t) < data_len fb then
        (if 0 \<le>s i \<and> nat (sint i) < length (data fb) then
           let data_v = data fb ! nat (sint i);
               max_v = (if max_v <s data_v then data_v else max_v);
               min_v = (if data_v <s min_v then data_v else min_v);
               sum_v = sum_v + data_v
           in filter_avg_loop fb (i + 1) (max_v, min_v, sum_v)
         else Inl OutOfBounds)
      else Inr (max_v, min_v, sum_v))"
  by pat_completeness auto

termination
proof (relation "measure (\<lambda>(fb, i, s). nat (4294967295 - uint i))")
  show "wf (measure (\<lambda>(fb, i, s). nat (4294967295 - uint i)))" by simp
next
  fix fb :: filter_buffer and i max_v min_v sum_v x xa xb xc :: c_int
  assume "0 \<le>s i \<and> nat (sint i) < length (data fb)"
  then have n: "0 \<le> sint i" by (simp add: word_sle_eq)
  have b: "sint i \<le> 2147483647" using sint_lt [of i] by simp
  have u: "uint i = sint i"
    using n b by (simp add: uint_sint [of i] take_bit_int_eq_self)
  then have "uint (i + 1) = uint i + 1"
    using n b by (simp add: uint_word_ariths)
  moreover have "uint i \<le> 2147483647" using u b by simp
  ultimately show "((fb, i + 1, xa, xb, xc), fb, i, max_v, min_v, sum_v)
       \<in> measure (\<lambda>(fb, i, s). nat (4294967295 - uint i))"
    by simp
qed

declare filter_avg_loop.simps [simp del]

definition filter_avg :: "filter_buffer \<Rightarrow> fault + c_double" where
  "filter_avg fb =
     (case data fb of
        [] \<Rightarrow> Inl OutOfBounds
      | d0 # _ \<Rightarrow>
          (case filter_avg_loop fb 1 (d0, d0, d0) of
             Inl e \<Rightarrow> Inl e
           | Inr (max_v, min_v, sum_v) \<Rightarrow>
               let sum_v = sum_v - max_v - min_v
               in Inr (double_div (sint sum_v) (unat (data_len fb - 2)))))"

subsection \<open>Mean and standard deviation of 16-bit samples\<close>








chapter \<open>Notions used to state the properties\<close>

section \<open>The decoder\<close>

text \<open>The 12-bit magnitude \<open>((byte0 & 0x0F) << 8) | byte1\<close>, as an integer.\<close>

definition magnitude :: "uint8_t \<Rightarrow> uint8_t \<Rightarrow> int" where
  "magnitude byte0 byte1 = push_bit 8 (uint (byte0 AND 0x0F)) OR uint byte1"

section \<open>The filter buffer\<close>

text \<open>
  A buffer is allocated when its array has \<open>data_len\<close> slots; the invariant of the
  write position is \<open>0 \<le> location < data_len\<close>. \<open>fb_push_all\<close> pushes a list of values,
  one call of \<open>fb_push\<close> after the other, and stops at the first fault.
\<close>

definition fb_alloc :: "filter_buffer \<Rightarrow> bool" where
  "fb_alloc fb \<longleftrightarrow> length (data fb) = unat (data_len fb)"

definition fb_inv :: "filter_buffer \<Rightarrow> bool" where
  "fb_inv fb \<longleftrightarrow> 0 \<le> sint (location fb) \<and> sint (location fb) < uint (data_len fb)"

fun fb_push_all :: "filter_buffer \<Rightarrow> c_int list \<Rightarrow> fault + filter_buffer" where
  "fb_push_all fb [] = Inr fb"
| "fb_push_all fb (v # vs) =
     (case fb_push fb v of Inl e \<Rightarrow> Inl e | Inr fb' \<Rightarrow> fb_push_all fb' vs)"

text \<open>
  One iteration of the loop of \<open>filter_avg\<close> on the triple \<open>(max, min, sum)\<close>.
\<close>

definition avg_step :: "c_int \<Rightarrow> c_int \<times> c_int \<times> c_int \<Rightarrow> c_int \<times> c_int \<times> c_int" where
  "avg_step d s =
     (case s of (mx, mn, sm) \<Rightarrow>
        ((if mx <s d then d else mx), (if d <s mn then d else mn), sm + d))"

text \<open>
  No overflow in \<open>filter_avg\<close>: every running sum \<open>data[0] + ... + data[i]\<close>, then
  \<open>sum - max\<close> and \<open>sum - max - min\<close>, is an \<open>int\<close>.
\<close>

definition int_ok :: "int \<Rightarrow> bool" where
  "int_ok x \<longleftrightarrow> - 2147483648 \<le> x \<and> x \<le> 2147483647"

fun sums_ok :: "int \<Rightarrow> int list \<Rightarrow> bool" where
  "sums_ok acc [] = True"
| "sums_ok acc (v # vs) = (int_ok (acc + v) \<and> sums_ok (acc + v) vs)"

definition no_overflow :: "int list \<Rightarrow> bool" where
  "no_overflow vs =
     (case vs of
        [] \<Rightarrow> True
      | v # rest \<Rightarrow>
          sums_ok v rest
          \<and> int_ok (sum_list vs - Max (set vs))
          \<and> int_ok (sum_list vs - Max (set vs) - Min (set vs)))"

section \<open>Mean and standard deviation\<close>







section \<open>The system calls of a run\<close>

text \<open>
  The calls a function added to the trace, what an \<open>ioctl\<close> entry asked for, what a call
  returned and what a read left in its cell; the four writes of \<open>spi_write_settings\<close> in
  their order; and the kernel state reached by issuing a list of \<open>ioctl\<close> requests, each on
  the state the previous one left.
\<close>

definition new_calls :: "'k world \<Rightarrow> 'k world \<Rightarrow> syscall list" where
  "new_calls w w' = drop (length (calls w)) (calls w')"

fun issued :: "syscall \<Rightarrow> (c_int \<times> request \<times> uint32_t) option" where
  "issued (Ioctl fd rq arg arg' ret) = Some (fd, rq, arg)"
| "issued _ = None"

fun returned :: "syscall \<Rightarrow> c_int" where
  "returned (Ioctl fd rq arg arg' ret) = ret"
| "returned (Open name fd) = fd"
| "returned (Close fd) = 0"

fun read_value :: "syscall \<Rightarrow> uint32_t" where
  "read_value (Ioctl fd rq arg arg' ret) = arg'"
| "read_value _ = 0"

fun is_settings_read :: "syscall \<Rightarrow> bool" where
  "is_settings_read (Ioctl fd rq arg arg' ret) =
     (rq \<in> {SPI_IOC_RD_MODE, SPI_IOC_RD_LSB_FIRST, SPI_IOC_RD_BITS_PER_WORD,
             SPI_IOC_RD_MAX_SPEED_HZ})"
| "is_settings_read _ = False"

fun is_settings_write :: "syscall \<Rightarrow> bool" where
  "is_settings_write (Ioctl fd rq arg arg' ret) =
     (rq \<in> {SPI_IOC_WR_MODE, SPI_IOC_WR_LSB_FIRST, SPI_IOC_WR_BITS_PER_WORD,
             SPI_IOC_WR_MAX_SPEED_HZ})"
| "is_settings_write _ = False"

definition write_plan :: "spi_settings \<Rightarrow> (request \<times> uint32_t) list" where
  "write_plan settings =
     [(SPI_IOC_WR_MODE, ucast (mode settings)),
      (SPI_IOC_WR_LSB_FIRST, ucast (is_lsb_first settings)),
      (SPI_IOC_WR_BITS_PER_WORD, ucast (bits_per_word settings)),
      (SPI_IOC_WR_MAX_SPEED_HZ, max_speed_hz settings)]"

definition device_after ::
  "'k kernel \<Rightarrow> c_int \<Rightarrow> (request \<times> uint32_t) list \<Rightarrow> 'k \<Rightarrow> 'k" where
  "device_after K fd plan k = fold (\<lambda>(rq, a) k. snd (snd (k_ioctl K k fd rq a))) plan k"

text \<open>
  A simulated spidev device for concrete runs. It holds the device's current settings
  and a script: the results of the next system calls, in order (a negative result of
  \<open>open\<close> and a non-zero result of \<open>ioctl\<close> are failures; when the script is used up,
  \<open>open\<close> returns descriptor 3 and \<open>ioctl\<close> succeeds). A successful write request sets the
  field, a successful read request returns it, and a failing request changes nothing.
\<close>

record sim_device =
  dev_settings :: spi_settings
  outcomes :: "c_int list"

definition sim_next :: "sim_device \<Rightarrow> c_int \<Rightarrow> c_int \<times> sim_device" where
  "sim_next d dflt = (case outcomes d of [] \<Rightarrow> (dflt, d) | r # rs \<Rightarrow> (r, d\<lparr>outcomes := rs\<rparr>))"

definition sim_ioctl ::
  "sim_device \<Rightarrow> c_int \<Rightarrow> request \<Rightarrow> uint32_t \<Rightarrow> c_int \<times> uint32_t \<times> sim_device" where
  "sim_ioctl d fd rq a =
     (case sim_next d 0 of
        (r, d') \<Rightarrow>
          if r \<noteq> 0 then (r, a, d')
          else
            (case rq of
               SPI_IOC_RD_MODE \<Rightarrow> (0, ucast (mode (dev_settings d')), d')
             | SPI_IOC_WR_MODE \<Rightarrow>
                 (0, a, d'\<lparr>dev_settings := (dev_settings d')\<lparr>mode := ucast a\<rparr>\<rparr>)
             | SPI_IOC_RD_LSB_FIRST \<Rightarrow> (0, ucast (is_lsb_first (dev_settings d')), d')
             | SPI_IOC_WR_LSB_FIRST \<Rightarrow>
                 (0, a, d'\<lparr>dev_settings := (dev_settings d')\<lparr>is_lsb_first := ucast a\<rparr>\<rparr>)
             | SPI_IOC_RD_BITS_PER_WORD \<Rightarrow> (0, ucast (bits_per_word (dev_settings d')), d')
             | SPI_IOC_WR_BITS_PER_WORD \<Rightarrow>
                 (0, a, d'\<lparr>dev_settings := (dev_settings d')\<lparr>bits_per_word := ucast a\<rparr>\<rparr>)
             | SPI_IOC_RD_MAX_SPEED_HZ \<Rightarrow> (0, max_speed_hz (dev_settings d'), d')
             | SPI_IOC_WR_MAX_SPEED_HZ \<Rightarrow>
                 (0, a, d'\<lparr>dev_settings := (dev_settings d')\<lparr>max_speed_hz := a\<rparr>\<rparr>)))"

definition sim_kernel :: "sim_device kernel" where
  "sim_kernel = \<lparr>k_open = (\<lambda>d name. sim_next d 3), k_close = (\<lambda>d fd. d), k_ioctl = sim_ioctl\<rparr>"

definition sim_world :: "c_int list \<Rightarrow> sim_device world" where
  "sim_world script =
     \<lparr>kern = \<lparr>dev_settings = \<lparr>mode = 0, is_lsb_first = 1, bits_per_word = 16,
                                max_speed_hz = 500000\<rparr>,
               outcomes = script\<rparr>,
      calls = [],
      spi_settings_orig = \<lparr>mode = 0, is_lsb_first = 0, bits_per_word = 0, max_speed_hz = 0\<rparr>\<rparr>"

chapter \<open>Properties\<close>

section \<open>The decoder\<close>

subsection \<open>Bits of the constants\<close>

lemma bit15_int: "bit (15 :: int) n \<longleftrightarrow> n < 4"
proof -
  have e: "(15 :: int) = mask 4" by (simp add: mask_eq_exp_minus_1)
  show ?thesis unfolding e bit_mask_iff by simp
qed

lemma bit31_int: "bit (31 :: int) n \<longleftrightarrow> n < 5"
proof -
  have e: "(31 :: int) = mask 5" by (simp add: mask_eq_exp_minus_1)
  show ?thesis unfolding e bit_mask_iff by simp
qed

lemma bit3840_int: "bit (3840 :: int) n \<longleftrightarrow> 8 \<le> n \<and> n < 12"
proof -
  have e: "(3840 :: int) = push_bit 8 (mask 4)"
    by (simp add: mask_eq_exp_minus_1 push_bit_eq_mult)
  show ?thesis unfolding e bit_push_bit_iff bit_mask_iff by auto
qed

lemma bit16_int: "bit (16 :: int) n \<longleftrightarrow> n = 4"
proof -
  have e: "(16 :: int) = 2 ^ 4" by simp
  show ?thesis unfolding e bit_exp_iff by auto
qed

lemma and16_zero_iff: "(w AND 0x10 = 0) \<longleftrightarrow> \<not> bit w 4" for w :: "'a::len word"
proof
  assume "w AND 0x10 = 0"
  then have "\<not> bit (w AND 0x10) 4" by simp
  then show "\<not> bit w 4"
    by (auto simp: bit_simps bit16_int dest: bit_imp_le_length)
next
  assume "\<not> bit w 4"
  then show "w AND 0x10 = 0"
    by (intro bit_word_eqI) (auto simp: bit_simps bit16_int)
qed

lemma sign_test: "((ucast byte0 :: c_int) AND 0x10 = 0) = (byte0 AND 0x10 = 0)"
  for byte0 :: uint8_t
  by (simp add: and16_zero_iff bit_simps)

subsection \<open>The magnitude and the stored value\<close>

lemma magnitude_take: "take_bit 12 (magnitude byte0 byte1) = magnitude byte0 byte1"
  unfolding magnitude_def
  by (rule bit_eqI) (auto simp: bit_simps bit15_int dest: bit_imp_le_length)

lemma magnitude_bounds: "0 \<le> magnitude byte0 byte1 \<and> magnitude byte0 byte1 < 4096"
proof -
  have "0 \<le> take_bit 12 (magnitude byte0 byte1)
      \<and> take_bit 12 (magnitude byte0 byte1) < 2 ^ 12"
    by (simp only: take_bit_nonnegative take_bit_int_less_exp simp_thms)
  then show ?thesis by (simp add: magnitude_take)
qed

lemma magnitude_mask: "magnitude (byte0 AND 0x1F) byte1 = magnitude byte0 byte1"
  unfolding magnitude_def
  by (rule bit_eqI) (auto simp: bit_simps bit15_int bit31_int)

lemma data16:
  "(ucast ((scast (ucast (push_bit 8 ((ucast byte0 :: c_int)) AND 3840) :: int16_t) :: c_int)
      OR (ucast byte1 :: c_int)) :: int16_t)
   = word_of_int (magnitude byte0 byte1)"
  unfolding magnitude_def
  by (rule bit_word_eqI) (auto simp: bit_simps bit15_int bit3840_int)

lemma sint_wi16:
  "- 32768 \<le> x \<Longrightarrow> x < 32768 \<Longrightarrow> sint (word_of_int x :: int16_t) = x"
  by (simp add: sint_sbintrunc' signed_take_bit_int_eq_self)

lemma sub16:
  assumes "- 32768 \<le> x" "x < 32768"
  shows "(ucast ((scast (word_of_int x :: int16_t) :: c_int) - 4096) :: int16_t)
         = word_of_int (x - 4096)"
proof -
  have "(scast (word_of_int x :: int16_t) :: c_int) = word_of_int x"
    using sint_wi16 [OF assms] by (metis of_int_sint)
  then have "(scast (word_of_int x :: int16_t) :: c_int) - 4096 = word_of_int (x - 4096)"
    by simp
  moreover have "(ucast (word_of_int (x - 4096) :: c_int) :: int16_t) = word_of_int (x - 4096)"
    by (rule ucast_down_wi) (simp add: is_down)
  ultimately show ?thesis
    by (simp only:)
qed

lemma read_two_word:
  "read_mcp3301_single (2, byte0, byte1) =
     (if byte0 AND 0x10 = 0 then word_of_int (magnitude byte0 byte1)
      else word_of_int (magnitude byte0 byte1 - 4096))"
proof -
  have b: "- 32768 \<le> magnitude byte0 byte1" "magnitude byte0 byte1 < 32768"
    using magnitude_bounds [of byte0 byte1] by auto
  show ?thesis
    by (simp add: read_mcp3301_single_def Let_def data16 sign_test sub16 [OF b])
qed

lemma read_two_sint:
  "sint (read_mcp3301_single (2, byte0, byte1)) =
     (if byte0 AND 0x10 = 0 then magnitude byte0 byte1 else magnitude byte0 byte1 - 4096)"
proof -
  have b: "0 \<le> magnitude byte0 byte1" "magnitude byte0 byte1 < 4096"
    using magnitude_bounds [of byte0 byte1] by auto
  have "sint (word_of_int (magnitude byte0 byte1) :: int16_t) = magnitude byte0 byte1"
    using b by (intro sint_wi16) auto
  moreover have "sint (word_of_int (magnitude byte0 byte1 - 4096) :: int16_t)
                 = magnitude byte0 byte1 - 4096"
    using b by (intro sint_wi16) auto
  ultimately show ?thesis
    by (auto simp only: read_two_word split: if_split)
qed

lemma read_short: "n \<noteq> 2 \<Longrightarrow> read_mcp3301_single (n, byte0, byte1) = 0x8001"
  by (simp add: read_mcp3301_single_def)

subsection \<open>Claims about the decoder\<close>

text \<open>
  C1. When the two-byte transfer returns exactly 2, \<open>read_mcp3301_single\<close> returns
  \<open>((byte0 & 0x0F) << 8) | byte1\<close> if bit 4 of \<open>byte0\<close> (\<open>byte0 & 0x10\<close>) is clear, and that
  value minus 4096 if the bit is set. The returned \<open>int16_t\<close> is read as a signed
  integer.
\<close>

theorem read_mcp3301_single_decode:
  "sint (read_mcp3301_single (2, byte0, byte1)) =
     (if byte0 AND 0x10 = 0
      then push_bit 8 (uint (byte0 AND 0x0F)) OR uint byte1
      else (push_bit 8 (uint (byte0 AND 0x0F)) OR uint byte1) - 4096)"
  using read_two_sint [of byte0 byte1] by (simp only: magnitude_def)

text \<open>
  The two examples of the specification: bytes \<open>(0x01, 0x00)\<close> decode to 256 and bytes
  \<open>(0x10, 0x00)\<close> to \<open>-4096\<close>.
\<close>

theorem read_mcp3301_single_decode_witness:
  "sint (read_mcp3301_single (2, 0x01, 0x00)) = 256
   \<and> sint (read_mcp3301_single (2, 0x10, 0x00)) = - 4096"
  using read_mcp3301_single_decode [of "0x01" "0x00"]
        read_mcp3301_single_decode [of "0x10" "0x00"]
  by simp

text \<open>
  C2. For every result of the two-byte transfer other than 2 (0, 1, negative error
  codes, anything else), \<open>read_mcp3301_single\<close> returns the sentinel \<open>0x8001\<close>, which is
  \<open>-32767\<close> as an \<open>int16_t\<close>, whatever the two bytes of the buffer hold.
\<close>

theorem read_mcp3301_single_sentinel:
  "n \<noteq> 2 \<Longrightarrow>
     read_mcp3301_single (n, byte0, byte1) = 0x8001
   \<and> sint (read_mcp3301_single (n, byte0, byte1)) = - 32767
   \<and> read_mcp3301_single (n, byte0, byte1) = read_mcp3301_single (n, other0, other1)"
  by (simp add: read_short)

text \<open>
  Transfers that returned 1, 0 and \<open>-1\<close>.
\<close>

theorem read_mcp3301_single_sentinel_witness:
  "read_mcp3301_single (1, 0x1F, 0xFF) = 0x8001
   \<and> sint (read_mcp3301_single (0, 0x00, 0x07)) = - 32767
   \<and> read_mcp3301_single (- 1, 0x12, 0x34) = read_mcp3301_single (- 1, 0x00, 0x00)"
proof -
  have n: "(1 :: c_int) \<noteq> 2" "(0 :: c_int) \<noteq> 2" "(- 1 :: c_int) \<noteq> 2"
    by simp_all
  show ?thesis
    using read_mcp3301_single_sentinel [OF n(1), of "0x1F" "0xFF" 0 0]
          read_mcp3301_single_sentinel [OF n(2), of "0x00" "0x07" 0 0]
          read_mcp3301_single_sentinel [OF n(3), of "0x12" "0x34" "0x00" "0x00"]
    by blast
qed

text \<open>
  C3. On the successful-transfer path the value returned lies in \<open>-4096..4095\<close> for
  every pair of bytes, so it is never the failure sentinel \<open>0x8001\<close> (\<open>-32767\<close>).
\<close>

theorem read_mcp3301_single_range:
  "- 4096 \<le> sint (read_mcp3301_single (2, byte0, byte1))
   \<and> sint (read_mcp3301_single (2, byte0, byte1)) \<le> 4095
   \<and> sint (read_mcp3301_single (2, byte0, byte1)) \<noteq> - 32767
   \<and> read_mcp3301_single (2, byte0, byte1) \<noteq> 0x8001"
proof -
  let ?r = "read_mcp3301_single (2, byte0, byte1)"
  have b: "0 \<le> magnitude byte0 byte1" "magnitude byte0 byte1 < 4096"
    using magnitude_bounds [of byte0 byte1] by auto
  have r: "- 4096 \<le> sint ?r \<and> sint ?r \<le> 4095"
    using b by (simp add: read_two_sint)
  have "sint (0x8001 :: int16_t) = - 32767" by simp
  with r have "?r \<noteq> 0x8001" by force
  with r show ?thesis by simp
qed

text \<open>
  C9. The decode ignores the top three bits of the first byte: on the
  successful-transfer path the value computed from \<open>(byte0, byte1)\<close> equals the value
  computed from \<open>(byte0 & 0x1F, byte1)\<close>.
\<close>

theorem read_mcp3301_single_top_bits:
  "read_mcp3301_single (2, byte0, byte1) = read_mcp3301_single (2, byte0 AND 0x1F, byte1)"
proof -
  have "bit (byte0 AND 0x1F) 4 = bit byte0 4"
    by (simp add: bit_simps bit31_int)
  then have "((byte0 AND 0x1F) AND 0x10 = 0) = (byte0 AND 0x10 = 0)"
    by (simp only: and16_zero_iff)
  then show ?thesis
    by (simp only: read_two_word magnitude_mask)
qed

section \<open>The filter buffer\<close>

subsection \<open>The index arithmetic\<close>

lemma sint_bounds32: "- 2147483648 \<le> sint (i :: c_int) \<and> sint i \<le> 2147483647"
  using sint_ge [of i] sint_lt [of i] by simp

lemma sint_add1: "sint i < 2147483647 \<Longrightarrow> sint (i + 1 :: c_int) = sint i + 1"
  using sint_bounds32 [of i]
  by (simp add: sint_word_add signed_take_bit_int_eq_self)

lemma nonneg_uint: "0 \<le> sint (i :: c_int) \<Longrightarrow> uint i = sint i"
  using sint_bounds32 [of i]
  by (simp add: uint_sint [of i] take_bit_int_eq_self)

lemma sint_wi32:
  "- 2147483648 \<le> x \<Longrightarrow> x \<le> 2147483647 \<Longrightarrow> sint (word_of_int x :: c_int) = x"
  by (simp add: sint_sbintrunc' signed_take_bit_int_eq_self)

lemma sint_inj32: "sint (a :: c_int) = sint b \<Longrightarrow> a = b"
  by (metis scast_eq scast_id)

lemma lt_unat_iff: "int k < uint w \<longleftrightarrow> k < unat w"
proof -
  have "k < nat (uint w) \<longleftrightarrow> int k < uint w"
    by (rule zless_nat_eq_int_zless)
  then show ?thesis by simp
qed

lemma uint_scast_nonneg:
  assumes "0 \<le> sint (j :: c_int)"
  shows "uint (scast j :: size_t) = sint j"
proof -
  have "uint (scast j :: size_t) = take_bit 64 (sint j)"
    by (simp only: scast_eq [of j] uint_word_of_int_eq) simp
  also have "\<dots> = sint j"
    using assms sint_bounds32 [of j] by (intro take_bit_int_eq_self) auto
  finally show ?thesis .
qed

lemma sint_of_nat32: "n \<le> 2147483647 \<Longrightarrow> sint (of_nat n :: c_int) = int n"
proof -
  assume "n \<le> 2147483647"
  then have "sint (word_of_int (int n) :: c_int) = int n"
    by (intro sint_wi32) auto
  then show ?thesis by simp
qed

lemma incr_loc_value:
  assumes "0 \<le> sint (loc :: c_int)" "sint loc < 2147483647" "0 < uint (L :: size_t)"
  shows "sint (ucast ((scast (loc + 1) :: size_t) mod L) :: c_int) = (sint loc + 1) mod uint L"
proof -
  have s: "sint (loc + 1) = sint loc + 1" using assms(2) by (rule sint_add1)
  then have u: "uint (scast (loc + 1) :: size_t) = sint loc + 1"
    using assms(1) by (simp add: uint_scast_nonneg)
  have m: "uint ((scast (loc + 1) :: size_t) mod L) = (sint loc + 1) mod uint L"
    by (simp add: uint_mod u)
  have r: "0 \<le> (sint loc + 1) mod uint L" "(sint loc + 1) mod uint L \<le> sint loc + 1"
    using assms(1,3) by (simp_all add: zmod_le_nonneg_dividend)
  have "(ucast ((scast (loc + 1) :: size_t) mod L) :: c_int) = word_of_int ((sint loc + 1) mod uint L)"
    by (simp only: ucast_eq m)
  moreover have "sint (word_of_int ((sint loc + 1) mod uint L) :: c_int) = (sint loc + 1) mod uint L"
    using r assms(2) by (intro sint_wi32) auto
  ultimately show ?thesis
    by (simp only:)
qed

subsection \<open>New buffers and single pushes\<close>

lemma fb_new_data:
  "unat len < 4611686018427387904 \<Longrightarrow> data (fb_new len) = replicate (unat len) 0"
proof -
  assume a: "unat len < 4611686018427387904"
  have "unat (4 * len) = 4 * unat len"
    using a by (simp add: unat_word_ariths)
  then show ?thesis by (simp add: fb_new_def)
qed

lemma fb_new_alloc: "unat len < 4611686018427387904 \<Longrightarrow> fb_alloc (fb_new len)"
  using fb_new_data [of len] by (simp add: fb_alloc_def) (simp add: fb_new_def)

lemma fb_push_step:
  assumes "fb_alloc fb" "fb_inv fb" "sint (location fb) < 2147483647"
  shows "\<exists>fb'. fb_push fb v = Inr fb'
           \<and> data fb' = (data fb)[nat (sint (location fb)) := v]
           \<and> data_len fb' = data_len fb
           \<and> sint (location fb') = (sint (location fb) + 1) mod uint (data_len fb)"
proof -
  have pos: "0 < uint (data_len fb)" using assms(2) by (simp add: fb_inv_def)
  then have nz: "data_len fb \<noteq> 0" by auto
  have inb: "nat (sint (location fb)) < length (data fb)"
    using assms(1,2) by (simp add: fb_alloc_def fb_inv_def nat_less_iff)
  have l: "0 \<le>s location fb" using assms(2) by (simp add: fb_inv_def word_sle_eq)
  show ?thesis
    using nz inb l incr_loc_value [of "location fb" "data_len fb"] assms(2,3) pos
    by (simp add: fb_push_def fb_incr_loc_def fb_inv_def)
qed

lemma fb_push_preserves:
  assumes "fb_alloc fb" "fb_inv fb" "unat (data_len fb) \<le> 2147483647"
  shows "\<exists>fb'. fb_push fb v = Inr fb'
           \<and> data fb' = (data fb)[nat (sint (location fb)) := v]
           \<and> data_len fb' = data_len fb
           \<and> sint (location fb') = (sint (location fb) + 1) mod uint (data_len fb)
           \<and> fb_alloc fb' \<and> fb_inv fb'"
proof -
  have u: "uint (data_len fb) \<le> 2147483647"
    using assms(3) by (simp add: unat_eq_nat_uint [of "data_len fb"] del: nat_uint_eq)
  have pos: "0 < uint (data_len fb)" using assms(2) by (simp add: fb_inv_def)
  have lt: "sint (location fb) < 2147483647"
    using assms(2) u by (simp add: fb_inv_def)
  obtain fb' where p: "fb_push fb v = Inr fb'"
    and d: "data fb' = (data fb)[nat (sint (location fb)) := v]"
    and l: "data_len fb' = data_len fb"
    and c: "sint (location fb') = (sint (location fb) + 1) mod uint (data_len fb)"
    using fb_push_step [OF assms(1,2) lt, of v] by blast
  have "fb_alloc fb'" using assms(1) d l by (simp add: fb_alloc_def)
  moreover have "fb_inv fb'" using c l pos by (simp add: fb_inv_def)
  ultimately show ?thesis using p d l c by blast
qed

subsection \<open>Sequences of pushes\<close>

lemma fb_push_all_append:
  "fb_push_all fb (xs @ ys) =
     (case fb_push_all fb xs of Inl e \<Rightarrow> Inl e | Inr fb' \<Rightarrow> fb_push_all fb' ys)"
  by (induction xs arbitrary: fb) (auto split: sum.splits)

lemma fb_push_all_run:
  assumes "fb_alloc fb" "sint (location fb) = int k" "k < unat (data_len fb)"
    and "k + length vs \<le> unat (data_len fb)" "k + length vs \<le> 2147483647"
  shows "\<exists>fb'. fb_push_all fb vs = Inr fb'
           \<and> data fb' = take k (data fb) @ vs @ drop (k + length vs) (data fb)
           \<and> data_len fb' = data_len fb
           \<and> sint (location fb') = int ((k + length vs) mod unat (data_len fb))"
  using assms
proof (induction vs arbitrary: fb k)
  case Nil
  then show ?case by simp
next
  case (Cons v vs)
  let ?L = "unat (data_len fb)"
  have inv: "fb_inv fb"
    using Cons.prems(2,3) by (simp add: fb_inv_def lt_unat_iff)
  have lt: "sint (location fb) < 2147483647"
    using Cons.prems(2,5) by simp
  obtain fb1 where p: "fb_push fb v = Inr fb1"
    and d1: "data fb1 = (data fb)[nat (sint (location fb)) := v]"
    and l1: "data_len fb1 = data_len fb"
    and c1: "sint (location fb1) = (sint (location fb) + 1) mod uint (data_len fb)"
    using fb_push_step [OF Cons.prems(1) inv lt, of v] by blast
  have c1': "sint (location fb1) = int (Suc k mod ?L)"
    using c1 Cons.prems(2) by (simp add: zmod_int add.commute)
  have klen: "k < length (data fb)"
    using Cons.prems(1,3) by (simp add: fb_alloc_def)
  have upd: "(data fb)[k := v] = take k (data fb) @ v # drop (Suc k) (data fb)"
    using klen by (simp add: upd_conv_take_nth_drop)
  show ?case
  proof (cases "Suc k < ?L")
    case True
    have a1: "fb_alloc fb1"
      using Cons.prems(1) d1 l1 by (simp add: fb_alloc_def)
    have s1: "sint (location fb1) = int (Suc k)"
      using c1' True by simp
    have "\<exists>fb'. fb_push_all fb1 vs = Inr fb'
           \<and> data fb' = take (Suc k) (data fb1) @ vs @ drop (Suc k + length vs) (data fb1)
           \<and> data_len fb' = data_len fb1
           \<and> sint (location fb') = int ((Suc k + length vs) mod unat (data_len fb1))"
      by (rule Cons.IH [OF a1 s1]) (use True Cons.prems(4,5) l1 in simp_all)
    then obtain fb' where r: "fb_push_all fb1 vs = Inr fb'"
      and dr: "data fb' = take (Suc k) (data fb1) @ vs @ drop (Suc k + length vs) (data fb1)"
      and lr: "data_len fb' = data_len fb1"
      and cr: "sint (location fb') = int ((Suc k + length vs) mod unat (data_len fb1))"
      by blast
    have "take (Suc k) (data fb1) = take k (data fb) @ [v]"
      using d1 Cons.prems(2) klen upd by simp
    moreover have "drop (Suc k + length vs) (data fb1) = drop (k + length (v # vs)) (data fb)"
      using d1 Cons.prems(2) by simp
    ultimately show ?thesis
      using p r dr lr cr l1 by simp
  next
    case False
    then have e: "Suc k = ?L" using Cons.prems(3) by simp
    have "k + Suc (length vs) \<le> ?L" using Cons.prems(4) by simp
    with e have "length vs = 0" by linarith
    then have vs: "vs = []" by simp
    have "drop (Suc k) (data fb) = []"
      using e Cons.prems(1) by (simp add: fb_alloc_def)
    then show ?thesis
      using p d1 l1 c1' vs Cons.prems(2) upd by simp
  qed
qed

lemma fb_fill:
  assumes "1 \<le> unat N" "unat N \<le> 2147483647" "length xs = unat N"
  shows "\<exists>fb'. fb_push_all (fb_new N) xs = Inr fb' \<and> data fb' = xs \<and> data_len fb' = N
           \<and> sint (location fb') = 0"
proof -
  have small: "unat N < 4611686018427387904" using assms(2) by simp
  have a: "fb_alloc (fb_new N)" by (rule fb_new_alloc [OF small])
  have l: "sint (location (fb_new N)) = int 0" by (simp add: fb_new_def)
  have n: "data_len (fb_new N) = N" by (simp add: fb_new_def)
  have "\<exists>fb'. fb_push_all (fb_new N) xs = Inr fb'
           \<and> data fb' = take 0 (data (fb_new N)) @ xs @ drop (0 + length xs) (data (fb_new N))
           \<and> data_len fb' = data_len (fb_new N)
           \<and> sint (location fb') = int ((0 + length xs) mod unat (data_len (fb_new N)))"
    by (rule fb_push_all_run [OF a l]) (use assms n in simp_all)
  then show ?thesis
    using assms(3) n fb_new_data [OF small] by auto
qed

text \<open>
  A buffer of \<open>2 ^ 32\<close> slots: after \<open>2 ^ 31\<close> pushes the \<open>int\<close> write position has
  wrapped to \<open>-2 ^ 31\<close>, and the next push is outside the array.
\<close>

lemma big_buffer_pushes:
  "\<exists>fb'. fb_push_all (fb_new 4294967296) (replicate 2147483648 v) = Inr fb'
         \<and> data_len fb' = 4294967296 \<and> location fb' = - 2147483648"
proof -
  let ?N = "4294967296 :: size_t"
  have small: "unat ?N < 4611686018427387904" by simp
  have a: "fb_alloc (fb_new ?N)" by (rule fb_new_alloc [OF small])
  have l: "sint (location (fb_new ?N)) = int 0" by (simp add: fb_new_def)
  have n: "data_len (fb_new ?N) = ?N" by (simp add: fb_new_def)
  have "\<exists>fb'. fb_push_all (fb_new ?N) (replicate 2147483647 v) = Inr fb'
           \<and> data fb' = take 0 (data (fb_new ?N)) @ replicate 2147483647 v
                 @ drop (0 + length (replicate 2147483647 v)) (data (fb_new ?N))
           \<and> data_len fb' = data_len (fb_new ?N)
           \<and> sint (location fb')
               = int ((0 + length (replicate 2147483647 v)) mod unat (data_len (fb_new ?N)))"
    by (rule fb_push_all_run [OF a l]) (simp_all add: n)
  then obtain fb1 where r: "fb_push_all (fb_new ?N) (replicate 2147483647 v) = Inr fb1"
    and d1: "length (data fb1) = 4294967296" and n1: "data_len fb1 = ?N"
    and c1: "sint (location fb1) = 2147483647"
    using fb_new_data [OF small] n by auto
  have "sint (location fb1) = sint (2147483647 :: c_int)" using c1 by simp
  then have w: "location fb1 = 2147483647" by (rule sint_inj32)
  have p: "\<exists>fb'. fb_push fb1 v = Inr fb' \<and> data_len fb' = ?N \<and> location fb' = - 2147483648"
    using d1 n1 w by (simp add: fb_push_def fb_incr_loc_def word_sle_eq)
  have "replicate 2147483648 v = replicate (2147483647 + Suc 0) v"
    by simp
  then have "replicate 2147483648 v = replicate 2147483647 v @ [v]"
    by (simp only: replicate_add replicate_Suc replicate_0)
  then show ?thesis
    using r p by (auto simp add: fb_push_all_append)
qed

lemma big_buffer_fault:
  "fb_push_all (fb_new 4294967296) (replicate 4294967297 v) = Inl OutOfBounds"
proof -
  obtain fb1 where r: "fb_push_all (fb_new 4294967296) (replicate 2147483648 v) = Inr fb1"
    and w: "location fb1 = - 2147483648"
    using big_buffer_pushes [of v] by blast
  have p: "fb_push fb1 v = Inl OutOfBounds"
    using w by (simp add: fb_push_def word_sle_eq)
  have "replicate 4294967297 v = replicate (2147483648 + Suc 2147483648) v"
    by simp
  then have "replicate 4294967297 v = replicate 2147483648 v @ v # replicate 2147483648 v"
    by (simp only: replicate_add replicate_Suc)
  then show ?thesis
    using r p by (simp add: fb_push_all_append)
qed

subsection \<open>Claims about the write position\<close>

text \<open>
  C5, amended. For every \<open>N\<close> with \<open>1 \<le> N \<le> 2 ^ 31 - 1\<close> (the range of the \<open>int\<close> write
  position) and every sequence of \<open>N + 1\<close> values pushed with \<open>fb_push\<close> into a buffer
  fresh from \<open>fb_new N\<close>, all pushes succeed; afterwards slot 0 holds the last value
  pushed, the other slots hold the values pushed second to \<open>N\<close>-th, and the write
  position is \<open>1 mod N\<close>: 1 when \<open>N \<ge> 2\<close>, and 0 when \<open>N = 1\<close>. Each push on an allocated
  buffer of length \<open>N\<close> whose position lies in \<open>0..N-1\<close> writes at the position and
  advances it by one modulo \<open>N\<close>.
\<close>

theorem fb_push_wraps:
  assumes "1 \<le> unat N" "unat N \<le> 2147483647" "length vs = unat N + 1"
  shows "(\<exists>fb'. fb_push_all (fb_new N) vs = Inr fb'
            \<and> data fb' = (butlast vs)[0 := last vs] \<and> data fb' ! 0 = last vs
            \<and> sint (location fb') = 1 mod uint N
            \<and> location fb' = (if unat N = 1 then 0 else 1))
       \<and> (\<forall>fb v. data_len fb = N \<and> fb_alloc fb \<and> fb_inv fb \<longrightarrow>
             (\<exists>fb'. fb_push fb v = Inr fb'
                \<and> data fb' = (data fb)[nat (sint (location fb)) := v]
                \<and> sint (location fb') = (sint (location fb) + 1) mod uint N))"
proof -
  have ne: "vs \<noteq> []" using assms(3) by auto
  then have split: "vs = butlast vs @ [last vs]" by simp
  have lb: "length (butlast vs) = unat N" using assms(3) by simp
  obtain fb1 where f: "fb_push_all (fb_new N) (butlast vs) = Inr fb1"
    and d1: "data fb1 = butlast vs" and n1: "data_len fb1 = N"
    and c1: "sint (location fb1) = 0"
    using fb_fill [OF assms(1,2) lb] by blast
  have a1: "fb_alloc fb1" using d1 n1 lb by (simp add: fb_alloc_def)
  have pos: "0 < uint N" using assms(1) by (simp add: lt_unat_iff [of 0 N, simplified])
  have i1: "fb_inv fb1" using c1 n1 pos by (simp add: fb_inv_def)
  have b1: "unat (data_len fb1) \<le> 2147483647" using n1 assms(2) by simp
  obtain fb2 where p: "fb_push fb1 (last vs) = Inr fb2"
    and d2: "data fb2 = (data fb1)[nat (sint (location fb1)) := last vs]"
    and c2: "sint (location fb2) = (sint (location fb1) + 1) mod uint (data_len fb1)"
    using fb_push_preserves [OF a1 i1 b1, of "last vs"] by blast
  have run: "fb_push_all (fb_new N) vs = Inr fb2"
    using f p by (subst split) (simp add: fb_push_all_append)
  have d: "data fb2 = (butlast vs)[0 := last vs]" using d2 d1 c1 by simp
  have len: "0 < length (butlast vs)" using lb assms(1) by simp
  have h: "data fb2 ! 0 = last vs" using d len by simp
  have c: "sint (location fb2) = 1 mod uint N" using c2 c1 n1 by simp
  have w: "location fb2 = (if unat N = 1 then 0 else 1)"
  proof (cases "unat N = 1")
    case True
    then have "uint N = 1" by (metis of_nat_1 uint_nat)
    then have "sint (location fb2) = sint (0 :: c_int)" using c by simp
    then have "location fb2 = 0" by (rule sint_inj32)
    then show ?thesis using True by simp
  next
    case False
    then have "1 < uint N" using assms(1) by (simp add: lt_unat_iff [of 1 N, simplified])
    then have "sint (location fb2) = sint (1 :: c_int)" using c by simp
    then have "location fb2 = 1" by (rule sint_inj32)
    then show ?thesis using False by simp
  qed
  have step: "\<exists>fb'. fb_push fb v = Inr fb'
                \<and> data fb' = (data fb)[nat (sint (location fb)) := v]
                \<and> sint (location fb') = (sint (location fb) + 1) mod uint N"
    if "data_len fb = N \<and> fb_alloc fb \<and> fb_inv fb" for fb v
    using fb_push_preserves [of fb v] that assms(2) by auto
  show ?thesis using run d h c w step by blast
qed

text \<open>
  Four values pushed into a buffer of length 3.
\<close>

theorem fb_push_wraps_witness:
  "\<exists>fb'. fb_push_all (fb_new 3) [10, 20, 30, 40] = Inr fb'
           \<and> data fb' ! 0 = 40 \<and> location fb' = 1"
proof -
  have h: "1 \<le> unat (3 :: size_t)" "unat (3 :: size_t) \<le> 2147483647"
    "length [10, 20, 30, 40 :: c_int] = unat (3 :: size_t) + 1" by simp_all
  show ?thesis using fb_push_wraps [OF h] by (auto simp del: fb_push_all.simps)
qed

text \<open>
  C5 as stated fails for \<open>N = 1\<close>: after two pushes into a buffer of length 1 the
  write position is 0, not 1. It also fails beyond the range of \<open>int\<close>: for
  \<open>N = 2 ^ 32\<close> the pushes do not complete, since the position wraps to a negative index.
\<close>

theorem fb_push_wraps_counterexample:
  "fb_push_all (fb_new 1) [10, 20] = Inr \<lparr>data = [20], data_len = 1, location = 0\<rparr>
   \<and> fb_push_all (fb_new 4294967296) (replicate 4294967297 7) = Inl OutOfBounds"
proof
  show "fb_push_all (fb_new 1) [10, 20] = Inr \<lparr>data = [20], data_len = 1, location = 0\<rparr>"
    by (simp add: fb_new_def fb_push_def fb_incr_loc_def word_sle_eq)
  show "fb_push_all (fb_new 4294967296) (replicate 4294967297 7) = Inl OutOfBounds"
    by (rule big_buffer_fault)
qed

text \<open>
  C10, amended. For every buffer length \<open>L\<close> with \<open>1 \<le> L \<le> 2 ^ 31 - 1\<close>, \<open>fb_new L\<close>
  yields an array of \<open>L\<close> zero slots with write position 0, which satisfies
  \<open>0 \<le> location < L\<close>; and every \<open>fb_push\<close> on an allocated buffer of length \<open>L\<close> that
  satisfies the invariant succeeds, writes inside the array (at the write position),
  keeps the array's length and preserves the invariant.
\<close>

theorem fb_location_invariant:
  assumes "1 \<le> unat L" "unat L \<le> 2147483647"
  shows "data_len (fb_new L) = L \<and> data (fb_new L) = replicate (unat L) 0
       \<and> location (fb_new L) = 0 \<and> fb_alloc (fb_new L) \<and> fb_inv (fb_new L)
       \<and> (\<forall>fb v. data_len fb = L \<and> fb_alloc fb \<and> fb_inv fb \<longrightarrow>
             (\<exists>fb'. fb_push fb v = Inr fb'
                \<and> data fb' = (data fb)[nat (sint (location fb)) := v]
                \<and> data_len fb' = L \<and> fb_alloc fb' \<and> fb_inv fb'))"
proof -
  have small: "unat L < 4611686018427387904" using assms(2) by simp
  have pos: "0 < uint L" using assms(1) by (simp add: lt_unat_iff [of 0 L, simplified])
  have "fb_inv (fb_new L)" using pos by (simp add: fb_inv_def fb_new_def)
  moreover have "data_len (fb_new L) = L" "location (fb_new L) = 0"
    by (simp_all add: fb_new_def)
  moreover have "\<exists>fb'. fb_push fb v = Inr fb'
                \<and> data fb' = (data fb)[nat (sint (location fb)) := v]
                \<and> data_len fb' = L \<and> fb_alloc fb' \<and> fb_inv fb'"
    if "data_len fb = L \<and> fb_alloc fb \<and> fb_inv fb" for fb v
    using fb_push_preserves [of fb v] that assms(2) by auto
  ultimately show ?thesis
    using fb_new_data [OF small] fb_new_alloc [OF small] by blast
qed

text \<open>
  The buffer of the application, of length 16, and its first push.
\<close>

theorem fb_location_invariant_witness:
  "fb_inv (fb_new 16) \<and> (\<exists>fb'. fb_push (fb_new 16) 5 = Inr fb' \<and> fb_alloc fb' \<and> fb_inv fb')"
proof -
  have h: "1 \<le> unat (16 :: size_t)" "unat (16 :: size_t) \<le> 2147483647" by simp_all
  show ?thesis using fb_location_invariant [OF h] by blast
qed

text \<open>
  C10 as stated fails for \<open>L = 2 ^ 32\<close>: with the write position at \<open>2 ^ 31 - 1\<close>, which
  satisfies the invariant, \<open>fb_push\<close> overflows \<open>location + 1\<close> and leaves the position
  at \<open>-2 ^ 31\<close>. That state is reached from \<open>fb_new\<close> by \<open>2 ^ 31\<close> pushes.
\<close>

theorem fb_location_invariant_counterexample:
  "fb_alloc \<lparr>data = replicate 4294967296 0, data_len = 4294967296, location = 2147483647\<rparr>
   \<and> fb_inv \<lparr>data = replicate 4294967296 0, data_len = 4294967296, location = 2147483647\<rparr>
   \<and> fb_push \<lparr>data = replicate 4294967296 0, data_len = 4294967296, location = 2147483647\<rparr> 7
       = Inr \<lparr>data = (replicate 4294967296 0)[2147483647 := 7], data_len = 4294967296,
              location = - 2147483648\<rparr>
   \<and> \<not> fb_inv \<lparr>data = (replicate 4294967296 0)[2147483647 := 7], data_len = 4294967296,
              location = - 2147483648\<rparr>
   \<and> (case fb_push_all (fb_new 4294967296) (replicate 2147483648 7) of
         Inl e \<Rightarrow> None
       | Inr fb' \<Rightarrow> Some (location fb')) = Some (- 2147483648)"
proof -
  have "(case fb_push_all (fb_new 4294967296) (replicate 2147483648 7) of
         Inl e \<Rightarrow> None
       | Inr fb' \<Rightarrow> Some (location fb')) = Some (- 2147483648)"
    using big_buffer_pushes [of 7] by auto
  then show ?thesis
    by (simp add: fb_alloc_def fb_inv_def fb_push_def fb_incr_loc_def word_sle_eq)
qed

section \<open>The trimmed average\<close>

subsection \<open>The loop\<close>

lemma filter_avg_loop_step:
  assumes "i < unat (data_len fb)" "i < length (data fb)" "i \<le> 2147483647"
  shows "filter_avg_loop fb (of_nat i) s
         = filter_avg_loop fb (of_nat (Suc i)) (avg_step (data fb ! i) s)"
proof -
  obtain mx mn sm where s: "s = (mx, mn, sm)" by (cases s) auto
  have si: "sint (of_nat i :: c_int) = int i" using assms(3) by (rule sint_of_nat32)
  then have "uint (scast (of_nat i :: c_int) :: size_t) = int i"
    by (simp add: uint_scast_nonneg)
  then have g: "(scast (of_nat i :: c_int) :: size_t) < data_len fb"
    using assms(1) by (simp add: word_less_def lt_unat_iff)
  have b: "0 \<le>s (of_nat i :: c_int) \<and> nat (sint (of_nat i :: c_int)) < length (data fb)"
    using si assms(2) by (simp add: word_sle_eq)
  have n: "(of_nat i :: c_int) + 1 = of_nat (Suc i)" by simp
  show ?thesis
    unfolding s
    by (subst filter_avg_loop.simps)
       (simp only: g b assms(2) if_True Let_def n si nat_int avg_step_def prod.case simp_thms)
qed

lemma filter_avg_loop_run:
  assumes "i \<le> j" "j \<le> length (data fb)" "j \<le> unat (data_len fb)" "j \<le> 2147483648"
  shows "filter_avg_loop fb (of_nat i) s
         = filter_avg_loop fb (of_nat j) (fold avg_step (take (j - i) (drop i (data fb))) s)"
  using assms
proof (induction "j - i" arbitrary: i s)
  case 0
  then show ?case by simp
next
  case (Suc n)
  then have lt: "i < j" by simp
  have st: "filter_avg_loop fb (of_nat i) s
         = filter_avg_loop fb (of_nat (Suc i)) (avg_step (data fb ! i) s)"
    by (rule filter_avg_loop_step) (use lt Suc.prems in simp_all)
  have n: "n = j - Suc i" using Suc.hyps(2) by simp
  have ih: "filter_avg_loop fb (of_nat (Suc i)) (avg_step (data fb ! i) s)
         = filter_avg_loop fb (of_nat j)
             (fold avg_step (take (j - Suc i) (drop (Suc i) (data fb))) (avg_step (data fb ! i) s))"
    by (rule Suc.hyps(1) [OF n]) (use lt Suc.prems in simp_all)
  have il: "i < length (data fb)" using lt Suc.prems(2) by simp
  have ji: "j - i = Suc (j - Suc i)" using lt by simp
  have "take (j - i) (drop i (data fb))
        = data fb ! i # take (j - Suc i) (drop (Suc i) (data fb))"
    unfolding ji using il by (simp flip: Cons_nth_drop_Suc)
  then show ?case using st ih by simp
qed

lemma filter_avg_loop_exit:
  assumes "unat (data_len fb) \<le> 2147483647"
  shows "filter_avg_loop fb (of_nat (unat (data_len fb))) s = Inr s"
proof -
  obtain mx mn sm where s: "s = (mx, mn, sm)" by (cases s) auto
  have "sint (of_nat (unat (data_len fb)) :: c_int) = int (unat (data_len fb))"
    using assms by (rule sint_of_nat32)
  then have "uint (scast (of_nat (unat (data_len fb)) :: c_int) :: size_t) = uint (data_len fb)"
    by (simp add: uint_scast_nonneg)
  then have g: "\<not> (scast (of_nat (unat (data_len fb)) :: c_int) :: size_t) < data_len fb"
    by (simp add: word_less_def)
  show ?thesis
    unfolding s by (subst filter_avg_loop.simps) (simp only: g if_False)
qed

subsection \<open>Maximum, minimum and sum\<close>

lemma fold_smax:
  "sint (fold (\<lambda>d m. if m <s d then d else m) ds mx) = Max (insert (sint mx) (sint ` set ds))"
proof (induction ds arbitrary: mx)
  case Nil
  then show ?case by simp
next
  case (Cons d ds)
  have "sint (if mx <s d then d else mx) = max (sint mx) (sint d)"
    by (simp add: word_sless_alt max_def)
  then have "Max (insert (sint (if mx <s d then d else mx)) (sint ` set ds))
             = Max (insert (sint mx) (insert (sint d) (sint ` set ds)))"
    by (cases "ds = []") (simp_all add: max.assoc)
  then show ?case using Cons.IH [of "if mx <s d then d else mx"] by simp
qed

lemma fold_smin:
  "sint (fold (\<lambda>d m. if d <s m then d else m) ds mn) = Min (insert (sint mn) (sint ` set ds))"
proof (induction ds arbitrary: mn)
  case Nil
  then show ?case by simp
next
  case (Cons d ds)
  have "sint (if d <s mn then d else mn) = min (sint mn) (sint d)"
    by (simp add: word_sless_alt min_def)
  then have "Min (insert (sint (if d <s mn then d else mn)) (sint ` set ds))
             = Min (insert (sint mn) (insert (sint d) (sint ` set ds)))"
    by (cases "ds = []") (simp_all add: min.assoc)
  then show ?case using Cons.IH [of "if d <s mn then d else mn"] by simp
qed

lemma fold_avg_step:
  "fold avg_step ds (mx, mn, sm)
   = (fold (\<lambda>d m. if m <s d then d else m) ds mx,
      fold (\<lambda>d m. if d <s m then d else m) ds mn,
      sm + sum_list ds)"
  by (induction ds arbitrary: mx mn sm) (simp_all add: avg_step_def add.assoc)

lemma fold_zeros: "fold avg_step (replicate n 0) (0, 0, 0) = (0, 0, 0)"
  by (induction n) (simp_all add: avg_step_def funpow_swap1)

lemma word_sum_list: "word_of_int (sum_list (map sint ds)) = (sum_list ds :: c_int)"
  by (induction ds) simp_all

text \<open>
  What \<open>filter_avg\<close> computes on an allocated buffer of 2 to \<open>2 ^ 31 - 1\<close> slots, with
  the wrap-around of the \<open>int\<close> arithmetic: the numerator is \<open>S - M - m\<close> reduced to 32
  bits.
\<close>

lemma filter_avg_value:
  assumes "fb_alloc fb" "2 \<le> unat (data_len fb)" "unat (data_len fb) \<le> 2147483647"
  shows "filter_avg fb =
           Inr (double_div
                  (sint (word_of_int (sum_list (map sint (data fb))
                                       - Max (set (map sint (data fb)))
                                       - Min (set (map sint (data fb)))) :: c_int))
                  (unat (data_len fb) - 2))"
proof -
  let ?L = "unat (data_len fb)"
  have len: "length (data fb) = ?L" using assms(1) by (simp add: fb_alloc_def)
  then obtain d0 rest where d: "data fb = d0 # rest"
    using assms(2) by (cases "data fb") auto
  have r: "rest = take (?L - 1) (drop 1 (data fb))" using d len by simp
  have "filter_avg_loop fb (of_nat 1) (d0, d0, d0)
        = filter_avg_loop fb (of_nat ?L)
            (fold avg_step (take (?L - 1) (drop 1 (data fb))) (d0, d0, d0))"
    by (rule filter_avg_loop_run) (use assms len in simp_all)
  also have "\<dots> = Inr (fold avg_step rest (d0, d0, d0))"
    using filter_avg_loop_exit [OF assms(3)] r by simp
  finally have loop: "filter_avg_loop fb 1 (d0, d0, d0)
        = Inr (fold (\<lambda>d m. if m <s d then d else m) rest d0,
               fold (\<lambda>d m. if d <s m then d else m) rest d0,
               d0 + sum_list rest)"
    by (simp add: fold_avg_step)
  let ?mx = "fold (\<lambda>d m. if m <s d then d else m) rest d0"
  let ?mn = "fold (\<lambda>d m. if d <s m then d else m) rest d0"
  have mx: "sint ?mx = Max (set (map sint (data fb)))"
    using fold_smax [of rest d0] d by simp
  have mn: "sint ?mn = Min (set (map sint (data fb)))"
    using fold_smin [of rest d0] d by simp
  have sm: "d0 + sum_list rest = word_of_int (sum_list (map sint (data fb)))"
    using word_sum_list [of "data fb"] d by simp
  have e: "word_of_int (sint ?mx) = ?mx" "word_of_int (sint ?mn) = ?mn"
    by simp_all
  have "(word_of_int (sum_list (map sint (data fb)) - sint ?mx - sint ?mn) :: c_int)
        = word_of_int (sum_list (map sint (data fb))) - word_of_int (sint ?mx)
          - word_of_int (sint ?mn)"
    by (simp only: wi_hom_sub)
  also have "\<dots> = d0 + sum_list rest - ?mx - ?mn"
    by (simp only: e sm)
  finally have fin: "d0 + sum_list rest - ?mx - ?mn
        = word_of_int (sum_list (map sint (data fb))
                        - Max (set (map sint (data fb))) - Min (set (map sint (data fb))))"
    by (simp only: mx mn)
  have two: "unat (data_len fb - 2) = ?L - 2"
  proof -
    have "(2 :: size_t) \<le> data_len fb"
      using assms(2) by (simp add: word_le_nat_alt)
    then show ?thesis by (simp add: unat_sub)
  qed
  show ?thesis
    unfolding filter_avg_def d list.case loop sum.case prod.case Let_def fin two
    using d by simp
qed

subsection \<open>Claim about the trimmed average\<close>

text \<open>
  C4, amended. For every allocated filter buffer of length \<open>L\<close> with
  \<open>3 \<le> L \<le> 2 ^ 31 - 1\<close> in which the \<open>int\<close> arithmetic does not overflow (every running
  sum, \<open>sum - max\<close> and \<open>sum - max - min\<close> lies in \<open>-2 ^ 31 .. 2 ^ 31 - 1\<close>),
  \<open>filter_avg\<close> returns \<open>(S - M - m) / (L - 2)\<close> as a double, where \<open>S\<close> is the sum of the
  \<open>L\<close> stored values, \<open>M\<close> their maximum and \<open>m\<close> their minimum, each subtracted once.
  In particular, for a buffer of length 16 whose slots all hold the same value \<open>V\<close> with
  \<open>-2 ^ 27 \<le> V \<le> 2 ^ 27 - 1\<close>, \<open>filter_avg\<close> returns exactly \<open>V\<close>.
\<close>

theorem filter_avg_trimmed:
  "(fb_alloc fb \<and> 3 \<le> unat (data_len fb) \<and> unat (data_len fb) \<le> 2147483647
      \<and> no_overflow (map sint (data fb)) \<longrightarrow>
    filter_avg fb =
      Inr (Double (real_of_int (sum_list (map sint (data fb))
                                 - Max (set (map sint (data fb)))
                                 - Min (set (map sint (data fb))))
                   / real (unat (data_len fb) - 2))))
   \<and> (- 134217728 \<le> sint V \<and> sint V \<le> 134217727 \<longrightarrow>
        filter_avg \<lparr>data = replicate 16 V, data_len = 16, location = loc\<rparr>
          = Inr (Double (real_of_int (sint V))))"
proof (intro conjI impI)
  assume a: "fb_alloc fb \<and> 3 \<le> unat (data_len fb) \<and> unat (data_len fb) \<le> 2147483647
      \<and> no_overflow (map sint (data fb))"
  let ?v = "sum_list (map sint (data fb)) - Max (set (map sint (data fb)))
             - Min (set (map sint (data fb)))"
  have ne: "data fb \<noteq> []" using a by (auto simp: fb_alloc_def)
  then have "int_ok ?v"
    using a by (cases "data fb") (simp_all add: no_overflow_def)
  then have "sint (word_of_int ?v :: c_int) = ?v"
    by (intro sint_wi32) (simp_all add: int_ok_def)
  moreover have "filter_avg fb = Inr (double_div (sint (word_of_int ?v :: c_int))
                                        (unat (data_len fb) - 2))"
    by (rule filter_avg_value) (use a in simp_all)
  ultimately show "filter_avg fb = Inr (Double (real_of_int ?v / real (unat (data_len fb) - 2)))"
    using a by (simp add: double_div_def)
next
  assume b: "- 134217728 \<le> sint V \<and> sint V \<le> 134217727"
  let ?fb = "\<lparr>data = replicate 16 V, data_len = 16, location = loc\<rparr>"
  have "filter_avg ?fb =
           Inr (double_div
                  (sint (word_of_int (sum_list (map sint (data ?fb))
                                       - Max (set (map sint (data ?fb)))
                                       - Min (set (map sint (data ?fb)))) :: c_int))
                  (unat (data_len ?fb) - 2))"
    by (rule filter_avg_value) (simp_all add: fb_alloc_def)
  moreover have "sum_list (map sint (data ?fb)) - Max (set (map sint (data ?fb)))
                  - Min (set (map sint (data ?fb))) = 14 * sint V"
    by (simp add: sum_list_replicate)
  moreover have "sint (word_of_int (14 * sint V) :: c_int) = 14 * sint V"
    using b by (intro sint_wi32) auto
  ultimately have "filter_avg ?fb = Inr (double_div (14 * sint V) (unat (data_len ?fb) - 2))"
    by (simp only:)
  moreover have "double_div (14 * sint V) (unat (data_len ?fb) - 2)
                 = Double (real_of_int (sint V))"
    by (simp add: double_div_def)
  ultimately show "filter_avg ?fb = Inr (Double (real_of_int (sint V)))"
    by (simp only:)
qed

text \<open>
  The buffers of the specification's examples: one 0, one 100 and fourteen 50 average to
  50, and sixteen 7 to 7.
\<close>

theorem filter_avg_trimmed_witness:
  "filter_avg \<lparr>data = [0, 100, 50, 50, 50, 50, 50, 50, 50, 50, 50, 50, 50, 50, 50, 50],
                data_len = 16, location = 0\<rparr> = Inr (Double 50)
   \<and> filter_avg \<lparr>data = replicate 16 7, data_len = 16, location = 0\<rparr> = Inr (Double 7)"
proof -
  let ?fb = "\<lparr>data = [0, 100, 50, 50, 50, 50, 50, 50, 50, 50, 50, 50, 50, 50, 50, 50],
              data_len = 16, location = 0\<rparr>"
  have h: "fb_alloc ?fb \<and> 3 \<le> unat (data_len ?fb) \<and> unat (data_len ?fb) \<le> 2147483647
      \<and> no_overflow (map sint (data ?fb))"
    by (simp add: fb_alloc_def no_overflow_def int_ok_def)
  have v: "- 134217728 \<le> sint (7 :: c_int) \<and> sint (7 :: c_int) \<le> 134217727"
    by simp
  show ?thesis
    using filter_avg_trimmed [of ?fb 7 0] h v by simp
qed

text \<open>
  C4 as stated fails on values whose sum overflows: sixteen slots holding
  \<open>V = 2 ^ 28\<close> give \<open>-2 ^ 28 / 7\<close>, not \<open>V\<close>, since \<open>14 * V\<close> is not an \<open>int\<close>. It also fails
  beyond the range of the \<open>int\<close> loop index: with \<open>2 ^ 32\<close> slots the loop stops after
  index \<open>2 ^ 31 - 1\<close>, so two slots holding 42 behind that index are not seen and the
  result is 0, where \<open>(S - M - m) / (L - 2)\<close> is \<open>42 / (2 ^ 32 - 2)\<close>.
\<close>

theorem filter_avg_trimmed_counterexample:
  "filter_avg \<lparr>data = replicate 16 268435456, data_len = 16, location = 0\<rparr>
     = Inr (Double (- (268435456 / 7)))
   \<and> filter_avg \<lparr>data = replicate 16 268435456, data_len = 16, location = 0\<rparr>
     \<noteq> Inr (Double 268435456)
   \<and> filter_avg \<lparr>data = 0 # replicate 2147483647 0 @ [42, 42] @ replicate 2147483646 0,
                  data_len = 4294967296, location = 0\<rparr>
     = Inr (Double 0)
   \<and> sum_list (map sint (0 # replicate 2147483647 0 @ [42, 42] @ replicate 2147483646 (0 :: c_int)))
     - Max (set (map sint (0 # replicate 2147483647 0 @ [42, 42] @ replicate 2147483646 (0 :: c_int))))
     - Min (set (map sint (0 # replicate 2147483647 0 @ [42, 42] @ replicate 2147483646 (0 :: c_int))))
     = 42"
proof (intro conjI)
  let ?fb = "\<lparr>data = replicate 16 268435456, data_len = 16, location = 0\<rparr>"
  have "filter_avg ?fb =
           Inr (double_div
                  (sint (word_of_int (sum_list (map sint (data ?fb))
                                       - Max (set (map sint (data ?fb)))
                                       - Min (set (map sint (data ?fb)))) :: c_int))
                  (unat (data_len ?fb) - 2))"
    by (rule filter_avg_value) (simp_all add: fb_alloc_def)
  then show v: "filter_avg ?fb = Inr (Double (- (268435456 / 7)))"
    by (simp add: sum_list_replicate double_div_def)
  show "filter_avg ?fb \<noteq> Inr (Double 268435456)"
    unfolding v by simp
next
  show "sum_list (map sint (0 # replicate 2147483647 0 @ [42, 42] @ replicate 2147483646 (0 :: c_int)))
     - Max (set (map sint (0 # replicate 2147483647 0 @ [42, 42] @ replicate 2147483646 (0 :: c_int))))
     - Min (set (map sint (0 # replicate 2147483647 0 @ [42, 42] @ replicate 2147483646 (0 :: c_int))))
     = 42"
    by (simp add: sum_list_replicate)
next
  let ?d = "0 # replicate 2147483647 0 @ [42, 42] @ replicate 2147483646 (0 :: c_int)"
  let ?fb = "\<lparr>data = ?d, data_len = 4294967296, location = 0\<rparr>"
  have "filter_avg_loop ?fb (of_nat 1) (0, 0, 0)
        = filter_avg_loop ?fb (of_nat 2147483648)
            (fold avg_step (take (2147483648 - 1) (drop 1 (data ?fb))) (0, 0, 0))"
    by (rule filter_avg_loop_run) simp_all
  also have "take (2147483648 - 1) (drop 1 (data ?fb)) = replicate 2147483647 0"
    by simp
  also have "fold avg_step (replicate 2147483647 0) (0, 0, 0) = (0, 0, 0 :: c_int)"
    by (rule fold_zeros)
  also have "filter_avg_loop ?fb (of_nat 2147483648) (0, 0, 0) = Inr (0, 0, 0)"
    by (subst filter_avg_loop.simps) simp
  finally have "filter_avg_loop ?fb 1 (0, 0, 0) = Inr (0, 0, 0)"
    by simp
  then show "filter_avg ?fb = Inr (Double 0)"
    by (simp add: filter_avg_def double_div_def)
qed

section \<open>Mean and standard deviation\<close>

subsection \<open>Sums of integers are exact\<close>











subsection \<open>The two functions\<close>





subsection \<open>The example\<close>



subsection \<open>Claim about the mean and the standard deviation\<close>



section \<open>The SPI layer\<close>

subsection \<open>The calls of the helpers\<close>

lemma sys_ioctl_eq:
  "sys_ioctl K fd rq a w =
     ((fst (k_ioctl K (kern w) fd rq a), fst (snd (k_ioctl K (kern w) fd rq a))),
      w\<lparr>kern := snd (snd (k_ioctl K (kern w) fd rq a)),
        calls := calls w @ [Ioctl fd rq a (fst (snd (k_ioctl K (kern w) fd rq a)))
                              (fst (k_ioctl K (kern w) fd rq a))]\<rparr>)"
  by (simp add: sys_ioctl_def split: prod.splits)

lemma set_defs:
  "set_spi_mode K fd m w =
     (let r = sys_ioctl K fd SPI_IOC_WR_MODE (ucast m) w in (fst (fst r), snd r))"
  "set_spi_is_lsb_first K fd m w =
     (let r = sys_ioctl K fd SPI_IOC_WR_LSB_FIRST (ucast m) w in (fst (fst r), snd r))"
  "set_spi_bits_per_word K fd m w =
     (let r = sys_ioctl K fd SPI_IOC_WR_BITS_PER_WORD (ucast m) w in (fst (fst r), snd r))"
  "set_spi_max_speed_hz K fd h w =
     (let r = sys_ioctl K fd SPI_IOC_WR_MAX_SPEED_HZ h w in (fst (fst r), snd r))"
  by (simp_all add: set_spi_mode_def set_spi_is_lsb_first_def set_spi_bits_per_word_def
        set_spi_max_speed_hz_def Let_def split: prod.splits)

lemma get_defs:
  "get_spi_mode K fd m w =
     (let r = sys_ioctl K fd SPI_IOC_RD_MODE (ucast m) w
      in ((fst (fst r), ucast (snd (fst r))), snd r))"
  "get_spi_is_lsb_first K fd m w =
     (let r = sys_ioctl K fd SPI_IOC_RD_LSB_FIRST (ucast m) w
      in ((fst (fst r), ucast (snd (fst r))), snd r))"
  "get_spi_bits_per_word K fd m w =
     (let r = sys_ioctl K fd SPI_IOC_RD_BITS_PER_WORD (ucast m) w
      in ((fst (fst r), ucast (snd (fst r))), snd r))"
  by (simp_all add: get_spi_mode_def get_spi_is_lsb_first_def get_spi_bits_per_word_def
        Let_def split: prod.splits)

lemma new_calls_append: "calls w' = calls w @ xs \<Longrightarrow> new_calls w w' = xs"
  by (simp add: new_calls_def)

lemma nonneg_not_minus1: "\<not> fd <s 0 \<Longrightarrow> (- 1 :: c_int) \<noteq> fd"
  by (auto simp: word_sless_alt)

lemma spi_read_settings_trace:
  "(case spi_read_settings K fd s0 w of
      ((ret, s'), w') \<Rightarrow>
        calls w' = calls w @ new_calls w w'
      \<and> (\<forall>e \<in> set (new_calls w w'). is_settings_read e)
      \<and> spi_settings_orig w' = spi_settings_orig w
      \<and> (ret = 0 \<longrightarrow>
            map issued (new_calls w w')
              = [Some (fd, SPI_IOC_RD_MODE, ucast (mode s0)),
                 Some (fd, SPI_IOC_RD_LSB_FIRST, ucast (is_lsb_first s0)),
                 Some (fd, SPI_IOC_RD_BITS_PER_WORD, ucast (bits_per_word s0)),
                 Some (fd, SPI_IOC_RD_MAX_SPEED_HZ, max_speed_hz s0)]
          \<and> s' = \<lparr>mode = ucast (read_value (new_calls w w' ! 0)),
                   is_lsb_first = ucast (read_value (new_calls w w' ! 1)),
                   bits_per_word = ucast (read_value (new_calls w w' ! 2)),
                   max_speed_hz = read_value (new_calls w w' ! 3)\<rparr>))"
  by (simp add: spi_read_settings_def get_defs get_spi_max_speed_hz_def sys_ioctl_eq new_calls_def
        Let_def)

lemma spi_write_settings_trace:
  "(case spi_write_settings K fd s w of
      (ret, w') \<Rightarrow>
        calls w' = calls w @ new_calls w w'
      \<and> (\<forall>e \<in> set (new_calls w w'). is_settings_write e)
      \<and> spi_settings_orig w' = spi_settings_orig w)"
  by (simp add: spi_write_settings_def set_defs sys_ioctl_eq new_calls_def Let_def)

lemmas sim_defs = sim_world_def sim_kernel_def sim_ioctl_def sim_next_def spi_settings_desired_def
  device_def sys_open_def sys_close_def sys_ioctl_def get_spi_mode_def set_spi_mode_def
  get_spi_is_lsb_first_def set_spi_is_lsb_first_def get_spi_bits_per_word_def
  set_spi_bits_per_word_def get_spi_max_speed_hz_def set_spi_max_speed_hz_def
  spi_read_settings_def spi_write_settings_def spi_init_def Let_def

subsection \<open>Claims about the SPI layer\<close>

text \<open>
  C7. \<open>spi_write_settings\<close> issues between one and four \<open>ioctl\<close> writes and nothing else:
  a prefix of mode, bit ordering, word size, max speed, in that order, each with the
  value of its field. Every write before the last one issued returned 0, and the
  function returns what the last one returned: so it returns 0 if and only if all four
  were issued and all returned 0, and otherwise the code of the first failing write,
  after which no write follows. The kernel is left in the state reached by exactly the
  writes issued: there is no rollback.
\<close>

theorem spi_write_settings_order:
  "(case spi_write_settings K fd settings w of
      (ret, w') \<Rightarrow>
        calls w' = calls w @ new_calls w w'
      \<and> 1 \<le> length (new_calls w w') \<and> length (new_calls w w') \<le> 4
      \<and> map issued (new_calls w w')
          = map (\<lambda>(rq, a). Some (fd, rq, a)) (take (length (new_calls w w')) (write_plan settings))
      \<and> (\<forall>e \<in> set (butlast (new_calls w w')). returned e = 0)
      \<and> ret = returned (last (new_calls w w'))
      \<and> (ret = 0 \<longleftrightarrow> length (new_calls w w') = 4 \<and> (\<forall>e \<in> set (new_calls w w'). returned e = 0))
      \<and> kern w' = device_after K fd (take (length (new_calls w w')) (write_plan settings)) (kern w)
      \<and> spi_settings_orig w' = spi_settings_orig w)"
  by (simp add: spi_write_settings_def set_defs sys_ioctl_eq new_calls_def write_plan_def
        device_after_def Let_def)

text \<open>
  On the simulated device, with the third write failing: the function returns the
  failure, the mode and the bit ordering are applied, the word size and the speed keep
  their old values. With no failure it returns 0 and the device holds the new settings.
\<close>

theorem spi_write_settings_order_witness:
  "fst (spi_write_settings sim_kernel 3 spi_settings_desired (sim_world [0, 0, - 1])) = - 1
   \<and> calls (snd (spi_write_settings sim_kernel 3 spi_settings_desired (sim_world [0, 0, - 1])))
       = [Ioctl 3 SPI_IOC_WR_MODE 3 3 0, Ioctl 3 SPI_IOC_WR_LSB_FIRST 0 0 0,
          Ioctl 3 SPI_IOC_WR_BITS_PER_WORD 8 8 (- 1)]
   \<and> dev_settings (kern (snd (spi_write_settings sim_kernel 3 spi_settings_desired
                                 (sim_world [0, 0, - 1]))))
       = \<lparr>mode = 3, is_lsb_first = 0, bits_per_word = 16, max_speed_hz = 500000\<rparr>
   \<and> fst (spi_write_settings sim_kernel 3 spi_settings_desired (sim_world [])) = 0
   \<and> dev_settings (kern (snd (spi_write_settings sim_kernel 3 spi_settings_desired
                                 (sim_world []))))
       = spi_settings_desired"
  using spi_write_settings_order
          [where K = sim_kernel and fd = 3 and settings = spi_settings_desired
             and w = "sim_world [0, 0, - 1]"]
        spi_write_settings_order
          [where K = sim_kernel and fd = 3 and settings = spi_settings_desired
             and w = "sim_world []"]
  by (simp add: sim_defs)

text \<open>
  C6. With \<open>fd\<close> the result of the \<open>open\<close>, \<open>rd\<close> the result of reading the settings and
  \<open>wr\<close> the result of writing them: if \<open>fd\<close> is negative, \<open>spi_init\<close> returns \<open>fd\<close> after the
  \<open>open\<close> alone, with no settings read or written; if the read fails, it closes the
  handle and returns \<open>-1\<close>, which differs from \<open>fd\<close>, and no settings write was issued;
  if the write fails, it closes the handle and returns \<open>-1\<close>; if all succeed, it returns
  \<open>fd\<close>, nothing is closed, and \<open>spi_settings_orig\<close> holds the four values the device
  returned to the reads of mode, bit ordering, word size and max speed.
\<close>

theorem spi_init_outcomes:
  "(case sys_open K device_name w of
      (fd, w1) \<Rightarrow>
   (case spi_read_settings K fd (spi_settings_orig w1) w1 of
      ((rd, orig), w2) \<Rightarrow>
   (case spi_write_settings K fd settings (w2\<lparr>spi_settings_orig := orig\<rparr>) of
      (wr, w3) \<Rightarrow>
   (case spi_init K device_name settings w of
      (ret, w') \<Rightarrow>
        (fd <s 0 \<longrightarrow>
           ret = fd \<and> w' = w1
         \<and> new_calls w w' = [Open device_name fd]
         \<and> spi_settings_orig w' = spi_settings_orig w)
      \<and> (\<not> fd <s 0 \<and> rd \<noteq> 0 \<longrightarrow>
           ret = - 1 \<and> ret \<noteq> fd
         \<and> new_calls w w' = Open device_name fd # new_calls w1 w2 @ [Close fd]
         \<and> (\<forall>e \<in> set (new_calls w1 w2). is_settings_read e)
         \<and> (\<forall>e \<in> set (new_calls w w'). \<not> is_settings_write e))
      \<and> (\<not> fd <s 0 \<and> rd = 0 \<and> wr \<noteq> 0 \<longrightarrow>
           ret = - 1 \<and> ret \<noteq> fd
         \<and> new_calls w w'
             = Open device_name fd # new_calls w1 w2 @ new_calls w2 w3 @ [Close fd])
      \<and> (\<not> fd <s 0 \<and> rd = 0 \<and> wr = 0 \<longrightarrow>
           ret = fd \<and> w' = w3
         \<and> new_calls w w' = Open device_name fd # new_calls w1 w2 @ new_calls w2 w3
         \<and> spi_settings_orig w' = orig
         \<and> map issued (new_calls w1 w2)
              = [Some (fd, SPI_IOC_RD_MODE, ucast (mode (spi_settings_orig w))),
                 Some (fd, SPI_IOC_RD_LSB_FIRST, ucast (is_lsb_first (spi_settings_orig w))),
                 Some (fd, SPI_IOC_RD_BITS_PER_WORD, ucast (bits_per_word (spi_settings_orig w))),
                 Some (fd, SPI_IOC_RD_MAX_SPEED_HZ, max_speed_hz (spi_settings_orig w))]
         \<and> orig = \<lparr>mode = ucast (read_value (new_calls w1 w2 ! 0)),
                     is_lsb_first = ucast (read_value (new_calls w1 w2 ! 1)),
                     bits_per_word = ucast (read_value (new_calls w1 w2 ! 2)),
                     max_speed_hz = read_value (new_calls w1 w2 ! 3)\<rparr>)))))"
proof -
  obtain fd w1 where o: "sys_open K device_name w = (fd, w1)"
    by (cases "sys_open K device_name w") auto
  obtain rd orig w2 where r: "spi_read_settings K fd (spi_settings_orig w1) w1 = ((rd, orig), w2)"
    by (cases "spi_read_settings K fd (spi_settings_orig w1) w1") auto
  obtain wr w3 where wq: "spi_write_settings K fd settings (w2\<lparr>spi_settings_orig := orig\<rparr>) = (wr, w3)"
    by (cases "spi_write_settings K fd settings (w2\<lparr>spi_settings_orig := orig\<rparr>)") auto
  obtain ret w' where i: "spi_init K device_name settings w = (ret, w')"
    by (cases "spi_init K device_name settings w") auto
  have c1: "calls w1 = calls w @ [Open device_name fd]"
    and s1: "spi_settings_orig w1 = spi_settings_orig w"
    using o by (auto simp: sys_open_def split: prod.splits)
  have rt: "calls w2 = calls w1 @ new_calls w1 w2"
    "\<forall>e \<in> set (new_calls w1 w2). is_settings_read e"
    "rd = 0 \<longrightarrow>
            map issued (new_calls w1 w2)
              = [Some (fd, SPI_IOC_RD_MODE, ucast (mode (spi_settings_orig w1))),
                 Some (fd, SPI_IOC_RD_LSB_FIRST, ucast (is_lsb_first (spi_settings_orig w1))),
                 Some (fd, SPI_IOC_RD_BITS_PER_WORD, ucast (bits_per_word (spi_settings_orig w1))),
                 Some (fd, SPI_IOC_RD_MAX_SPEED_HZ, max_speed_hz (spi_settings_orig w1))]
          \<and> orig = \<lparr>mode = ucast (read_value (new_calls w1 w2 ! 0)),
                   is_lsb_first = ucast (read_value (new_calls w1 w2 ! 1)),
                   bits_per_word = ucast (read_value (new_calls w1 w2 ! 2)),
                   max_speed_hz = read_value (new_calls w1 w2 ! 3)\<rparr>"
    using spi_read_settings_trace [where K = K and fd = fd and ?s0.0 = "spi_settings_orig w1" and w = w1] r
    by simp_all
  have wt: "calls w3 = calls (w2\<lparr>spi_settings_orig := orig\<rparr>) @ new_calls (w2\<lparr>spi_settings_orig := orig\<rparr>) w3"
    "spi_settings_orig w3 = orig"
    using spi_write_settings_trace
            [where K = K and fd = fd and s = settings and w = "w2\<lparr>spi_settings_orig := orig\<rparr>"] wq
    by simp_all
  have nw: "new_calls (w2\<lparr>spi_settings_orig := orig\<rparr>) w3 = new_calls w2 w3"
    by (simp add: new_calls_def)
  have c3: "calls w3 = calls w @ Open device_name fd # new_calls w1 w2 @ new_calls w2 w3"
    using wt(1) rt(1) c1 nw by simp
  have c2: "calls w2 = calls w @ Open device_name fd # new_calls w1 w2"
    using rt(1) c1 by simp
  have rw: "\<not> is_settings_write e" if "is_settings_read e" for e
    using that by (cases e) auto
  have A: "ret = fd \<and> w' = w1 \<and> new_calls w w' = [Open device_name fd]
         \<and> spi_settings_orig w' = spi_settings_orig w" if "fd <s 0"
    using that i o c1 s1 by (simp add: spi_init_def new_calls_def)
  have B: "ret = - 1 \<and> ret \<noteq> fd
         \<and> new_calls w w' = Open device_name fd # new_calls w1 w2 @ [Close fd]
         \<and> (\<forall>e \<in> set (new_calls w1 w2). is_settings_read e)
         \<and> (\<forall>e \<in> set (new_calls w w'). \<not> is_settings_write e)" if "\<not> fd <s 0 \<and> rd \<noteq> 0"
  proof -
    have e: "ret = - 1" "w' = sys_close K fd (w2\<lparr>spi_settings_orig := orig\<rparr>)"
      using that i o r by (simp_all add: spi_init_def Let_def)
    have n: "new_calls w w' = Open device_name fd # new_calls w1 w2 @ [Close fd]"
      by (rule new_calls_append) (simp add: e sys_close_def c2)
    show ?thesis
      using e(1) n rt(2) rw nonneg_not_minus1 [of fd] that by auto
  qed
  have C: "ret = - 1 \<and> ret \<noteq> fd
         \<and> new_calls w w'
             = Open device_name fd # new_calls w1 w2 @ new_calls w2 w3 @ [Close fd]"
    if "\<not> fd <s 0 \<and> rd = 0 \<and> wr \<noteq> 0"
  proof -
    have e: "ret = - 1" "w' = sys_close K fd w3"
      using that i o r wq by (simp_all add: spi_init_def Let_def)
    have n: "new_calls w w' = Open device_name fd # new_calls w1 w2 @ new_calls w2 w3 @ [Close fd]"
      by (rule new_calls_append) (simp add: e sys_close_def c3)
    show ?thesis
      using e(1) n nonneg_not_minus1 [of fd] that by auto
  qed
  have D: "ret = fd \<and> w' = w3
         \<and> new_calls w w' = Open device_name fd # new_calls w1 w2 @ new_calls w2 w3
         \<and> spi_settings_orig w' = orig
         \<and> map issued (new_calls w1 w2)
              = [Some (fd, SPI_IOC_RD_MODE, ucast (mode (spi_settings_orig w))),
                 Some (fd, SPI_IOC_RD_LSB_FIRST, ucast (is_lsb_first (spi_settings_orig w))),
                 Some (fd, SPI_IOC_RD_BITS_PER_WORD, ucast (bits_per_word (spi_settings_orig w))),
                 Some (fd, SPI_IOC_RD_MAX_SPEED_HZ, max_speed_hz (spi_settings_orig w))]
         \<and> orig = \<lparr>mode = ucast (read_value (new_calls w1 w2 ! 0)),
                     is_lsb_first = ucast (read_value (new_calls w1 w2 ! 1)),
                     bits_per_word = ucast (read_value (new_calls w1 w2 ! 2)),
                     max_speed_hz = read_value (new_calls w1 w2 ! 3)\<rparr>"
    if "\<not> fd <s 0 \<and> rd = 0 \<and> wr = 0"
  proof -
    have e: "ret = fd" "w' = w3"
      using that i o r wq by (simp_all add: spi_init_def Let_def)
    have n: "new_calls w w' = Open device_name fd # new_calls w1 w2 @ new_calls w2 w3"
      by (rule new_calls_append) (simp add: e c3)
    show ?thesis
      using e n wt(2) rt(3) that s1 by simp
  qed
  show ?thesis
    unfolding o r wq i prod.case using A B C D by blast
qed

text \<open>
  On the simulated device: a failing \<open>open\<close>; a failing second read; a failing second
  write; and a run without failure, after which \<open>spi_settings_orig\<close> holds the device's
  previous settings and the device holds the desired ones.
\<close>

theorem spi_init_outcomes_witness:
  "spi_init sim_kernel device spi_settings_desired (sim_world [- 1])
     = (- 1, (sim_world []) \<lparr>calls := [Open device (- 1)]\<rparr>)
   \<and> fst (spi_init sim_kernel device spi_settings_desired (sim_world [3, 0, - 1])) = - 1
   \<and> calls (snd (spi_init sim_kernel device spi_settings_desired (sim_world [3, 0, - 1])))
       = [Open device 3, Ioctl 3 SPI_IOC_RD_MODE 0 0 0,
          Ioctl 3 SPI_IOC_RD_LSB_FIRST 0 0 (- 1), Close 3]
   \<and> fst (spi_init sim_kernel device spi_settings_desired (sim_world [3, 0, 0, 0, 0, 0, - 5]))
       = - 1
   \<and> last (calls (snd (spi_init sim_kernel device spi_settings_desired
                           (sim_world [3, 0, 0, 0, 0, 0, - 5])))) = Close 3
   \<and> fst (spi_init sim_kernel device spi_settings_desired (sim_world [])) = 3
   \<and> spi_settings_orig (snd (spi_init sim_kernel device spi_settings_desired (sim_world [])))
       = \<lparr>mode = 0, is_lsb_first = 1, bits_per_word = 16, max_speed_hz = 500000\<rparr>
   \<and> dev_settings (kern (snd (spi_init sim_kernel device spi_settings_desired (sim_world []))))
       = spi_settings_desired"
  using spi_init_outcomes
          [where K = sim_kernel and device_name = device and settings = spi_settings_desired
             and w = "sim_world [- 1]"]
        spi_init_outcomes
          [where K = sim_kernel and device_name = device and settings = spi_settings_desired
             and w = "sim_world [3, 0, - 1]"]
        spi_init_outcomes
          [where K = sim_kernel and device_name = device and settings = spi_settings_desired
             and w = "sim_world [3, 0, 0, 0, 0, 0, - 5]"]
        spi_init_outcomes
          [where K = sim_kernel and device_name = device and settings = spi_settings_desired
             and w = "sim_world []"]
  by (simp add: sim_defs word_sless_alt new_calls_def)

end
